theory Spec2Isabelle
  imports Complex_Main
begin

section \<open>Numbers\<close>

text \<open>
  The joystick scripts compute with Python floats and integers.  Floats are modelled as
  reals: every product and sum below is the exact one, so the rounding error of an IEEE
  double is not represented.  Python integers are \<open>int\<close>.

  \<^verbatim>\<open>int(x)\<close> on a float truncates toward zero.
\<close>

definition py_int :: "real \<Rightarrow> int" where
  "py_int x = (if 0 \<le> x then \<lfloor>x\<rfloor> else \<lceil>x\<rceil>)"

text \<open>Module constants of \<^verbatim>\<open>newcode.py\<close> (lines 12-28).\<close>

definition CTRL_LOOP_TIME :: real where
  "CTRL_LOOP_TIME = 1 / 100"

definition SLOW_MSGS_LOOP_TIME :: real where
  "SLOW_MSGS_LOOP_TIME = 1 / 5"

definition Kp :: real where
  "Kp = 50"

definition Ki :: real where
  "Ki = 10"

definition DEBOUNCE_TIME :: real where
  "DEBOUNCE_TIME = 0.5"

definition ALT_FILTER_ALPHA :: real where
  "ALT_FILTER_ALPHA = 0.01"

section \<open>Channel mapping\<close>

text \<open>
  \<^verbatim>\<open>def scale_axis(val): return int(1500 + max(-200, min(200, int(val * 200))))\<close>
  (the same line in \<^verbatim>\<open>newcode.py\<close> and \<^verbatim>\<open>UIjoy.py\<close>).  The outer
  \<^verbatim>\<open>int\<close> is applied to an integer and changes nothing.
\<close>

definition scale_axis :: "real \<Rightarrow> int" where
  "scale_axis val = 1500 + max (- 200) (min 200 (py_int (val * 200)))"

text \<open>
  \<^verbatim>\<open>scale_throttle\<close> of \<^verbatim>\<open>newcode.py\<close>: the input is clamped to
  \<open>[-1, 1]\<close>; the forward half scales by \<open>1800 - 1600\<close>, the reverse half by
  \<open>1600 - 950\<close>.
\<close>

definition scale_throttle :: "real \<Rightarrow> int" where
  "scale_throttle val0 =
     (let val = max (- 1) (min 1 val0)
      in if val \<ge> 0 then py_int (1600 + val * (1800 - 1600))
         else py_int (1600 + val * (1600 - 950)))"

text \<open>The integer throttle output read as a real-valued function of the axis.\<close>

definition throttle_out :: "real \<Rightarrow> real" where
  "throttle_out v = real_of_int (scale_throttle v)"

text \<open>
  A button is pressed when its index exists and its reading is true: the guard
  \<^verbatim>\<open>len(button) > n and button[n]\<close> that every use of a button has.
\<close>

definition pressed :: "bool list \<Rightarrow> nat \<Rightarrow> bool" where
  "pressed button n = (length button > n \<and> button ! n)"

text \<open>
  \<^verbatim>\<open>scale_yaw\<close> of \<^verbatim>\<open>newcode.py\<close> reads the buttons and rewrites the global
  \<^verbatim>\<open>yaw_trim\<close>.  The model takes the trim and returns the channel value together
  with the trim the call leaves behind.
\<close>

definition scale_yaw :: "bool list \<Rightarrow> int \<Rightarrow> int \<times> int" where
  "scale_yaw button yaw_trim0 =
     (let yaw_trim1 =
        (if pressed button 5 then min 100 (yaw_trim0 + 10)
         else if pressed button 4 then max (- 100) (yaw_trim0 - 10)
         else 0)
      in (1500 + yaw_trim1, yaw_trim1))"

section \<open>Battery voltage bands\<close>

text \<open>
  The message chosen for a voltage reading in the \<^verbatim>\<open>MSP_ANALOG\<close> branch of the slow
  loop (\<^verbatim>\<open>newcode.py\<close>, lines 244-251).  The empty message is the normal band.
\<close>

definition voltage_message :: "real \<Rightarrow> real \<Rightarrow> real \<Rightarrow> real \<Rightarrow> string" where
  "voltage_message min_voltage warn_voltage max_voltage voltage =
     (if min_voltage < voltage \<and> voltage \<le> warn_voltage then ''LOW BATT WARNING''
      else if voltage \<le> min_voltage then ''ULTRA LOW BATT!!!''
      else if voltage \<ge> max_voltage then ''VOLTAGE TOO HIGH''
      else '''')"

section \<open>State, inputs and effects\<close>

text \<open>The dictionary \<^verbatim>\<open>CMDS\<close>: six named channel values.\<close>

record cmds =
  roll :: int
  pitch :: int
  throttle :: int
  yaw :: int
  aux1 :: int
  aux2 :: int

text \<open>\<^verbatim>\<open>[CMDS[ki] for ki in CMDS_ORDER]\<close>, the frame handed to \<^verbatim>\<open>send_RAW_RC\<close>.\<close>

definition frame :: "cmds \<Rightarrow> int list" where
  "frame c = [roll c, pitch c, throttle c, yaw c, aux1 c, aux2 c]"

text \<open>The initial \<^verbatim>\<open>CMDS\<close> of \<^verbatim>\<open>joy_controller\<close> (both scripts).\<close>

definition CMDS0 :: cmds where
  "CMDS0 = \<lparr>roll = 1500, pitch = 1500, throttle = 900, yaw = 1500, aux1 = 1000, aux2 = 1000\<rparr>"

datatype msp = MSP_ANALOG | MSP_STATUS_EX | MSP_MOTOR | MSP_RC

text \<open>
  What the loop does to the outside world, in the order it does it: calls on the board
  (the serial link), writes to the GPIO pin, and the closing of the link when the
  \<^verbatim>\<open>with MSPy(...) as board\<close> block is left.
\<close>

datatype event =
    SendRC "int list"
  | SendMsg msp
  | FastReadAltitude
  | Reboot
  | GpioOutput bool
  | GpioCleanup
  | LinkClosed

text \<open>
  The state of \<^verbatim>\<open>newcode.py\<close>: the module globals that \<^verbatim>\<open>joy_controller\<close> writes
  and the locals that live across iterations.  \<^verbatim>\<open>ei\<close> is assigned inside
  \<^verbatim>\<open>joy_controller\<close> and is not in its \<^verbatim>\<open>global\<close> statement, so it is a local
  variable with no value until the first assignment: \<open>None\<close>.  \<open>slow_msgs\<close> is the
  position of the \<^verbatim>\<open>cycle\<close> iterator.
\<close>

record ctl =
  CMDS :: cmds
  alt_hold :: bool
  alt_setpoint :: real
  alt :: real
  eh :: real
  ei :: "real option"
  last_alt_toggle_time :: real
  filtered_alt :: real
  yaw_trim :: int
  state23 :: bool
  cursor_msg :: string
  min_voltage :: real
  warn_voltage :: real
  max_voltage :: real
  voltage_msg :: string
  slow_msgs :: nat
  last_loop_time :: real
  last_slow_msg_time :: real
  trace :: "event list"

text \<open>
  What one iteration reads from its environment.  \<open>joystick\<close> is the result of
  \<^verbatim>\<open>update()\<close>: the axis and button lists, or \<open>None\<close> when it raises.  \<open>link_up\<close>
  says whether the calls on the board return; when it is false the first call of the
  iteration raises.  \<open>altitude\<close> and \<open>altitude_toggle\<close> are
  \<^verbatim>\<open>board.SENSOR_DATA['altitude']\<close> after the read in the hold branch and after the
  read in the toggle branch.  \<open>now\<close>, \<open>fast_clock\<close> and \<open>slow_clock\<close> are
  \<^verbatim>\<open>time.time()\<close> at the debounce test, at the fast-rate test and at the slow-rate
  test.  \<open>analog_voltage\<close> is \<^verbatim>\<open>board.ANALOG.get('voltage', 0.0)\<close>.
\<close>

record tick =
  joystick :: "(real list \<times> bool list) option"
  link_up :: bool
  altitude :: real
  altitude_toggle :: real
  now :: real
  fast_clock :: real
  slow_clock :: real
  analog_voltage :: real

text \<open>
  How a piece of the loop body ends: control goes on (\<open>Next\<close>), the loop is left by
  \<^verbatim>\<open>break\<close>, or an exception propagates.  Each carries the state at that point.
\<close>

datatype 's flow = Next 's | Break 's | Raise 's

definition then_do :: "'s flow \<Rightarrow> ('s \<Rightarrow> 's flow) \<Rightarrow> 's flow" where
  "then_do r f = (case r of Next s \<Rightarrow> f s | Break s \<Rightarrow> Break s | Raise s \<Rightarrow> Raise s)"

definition state_of :: "'s flow \<Rightarrow> 's" where
  "state_of r = (case r of Next s \<Rightarrow> s | Break s \<Rightarrow> s | Raise s \<Rightarrow> s)"

section \<open>One iteration of \<^verbatim>\<open>newcode.py\<close>\<close>

text \<open>
  Lines 152-155: the handler of a failed \<^verbatim>\<open>update()\<close> sets \<^verbatim>\<open>aux2\<close> and
  \<^verbatim>\<open>continue\<close>s, so nothing else of the body runs in that iteration.
\<close>

definition joystick_lost :: "ctl \<Rightarrow> ctl" where
  "joystick_lost s = s\<lparr>CMDS := (CMDS s)\<lparr>aux2 := 1800\<rparr>\<rparr>"

text \<open>
  Lines 177-180: the four raw channel values.  \<^verbatim>\<open>axis[1]\<close>, \<^verbatim>\<open>axis[3]\<close> and
  \<^verbatim>\<open>axis[4]\<close> raise IndexError on a shorter list, before \<^verbatim>\<open>scale_yaw\<close> runs.
  The result is \<open>(raw_throttle, raw_roll, raw_pitch, raw_yaw)\<close> and the yaw trim left
  behind.
\<close>

definition channel_map ::
  "real list \<Rightarrow> bool list \<Rightarrow> int \<Rightarrow> ((int \<times> int \<times> int \<times> int) \<times> int) option" where
  "channel_map axis button yaw_trim0 =
     (if length axis \<le> 4 then None
      else let raw_throttle = scale_throttle (- (axis ! 1));
               raw_roll = scale_axis (axis ! 3);
               raw_pitch = scale_axis (- (axis ! 4));
               (raw_yaw, yaw_trim1) = scale_yaw button yaw_trim0
           in Some ((raw_throttle, raw_roll, raw_pitch, raw_yaw), yaw_trim1))"

text \<open>Lines 182-191: the throttle channel, from the stick or from the altitude hold.\<close>

definition throttle_stage :: "ctl \<Rightarrow> tick \<Rightarrow> int \<Rightarrow> ctl flow" where
  "throttle_stage s i raw_throttle =
     (if \<not> alt_hold s then Next (s\<lparr>CMDS := (CMDS s)\<lparr>throttle := raw_throttle\<rparr>\<rparr>)
      else if \<not> link_up i then Raise s
      else
        let s1 = s\<lparr>trace := trace s @ [FastReadAltitude], alt := altitude i\<rparr>;
            s2 = s1\<lparr>filtered_alt :=
                      ALT_FILTER_ALPHA * alt s1 + (1 - ALT_FILTER_ALPHA) * filtered_alt s1\<rparr>;
            s3 = s2\<lparr>eh := alt_setpoint s2 - filtered_alt s2\<rparr>
        in case ei s3 of
             None \<Rightarrow> Raise s3
           | Some ei0 \<Rightarrow>
               let ei1 = ei0 + eh s3 * CTRL_LOOP_TIME;
                   throttle_cmd = 1570 + Kp * eh s3 + Ki * ei1
               in Next (s3\<lparr>ei := Some ei1,
                            CMDS := (CMDS s3)\<lparr>throttle :=
                                      max 900 (min 1600 (py_int throttle_cmd))\<rparr>\<rparr>))"

text \<open>Lines 195-197.\<close>

definition set_attitude :: "ctl \<Rightarrow> int \<Rightarrow> int \<Rightarrow> int \<Rightarrow> ctl" where
  "set_attitude s raw_yaw raw_roll raw_pitch =
     s\<lparr>CMDS := (CMDS s)\<lparr>yaw := raw_yaw, roll := raw_roll, pitch := raw_pitch\<rparr>\<rparr>"

text \<open>
  Lines 199-228: the button chain, in the order of the \<^verbatim>\<open>if\<close>/\<^verbatim>\<open>elif\<close> branches:
  9 (reboot), 0 (arm), 1 (disarm), 3 (GPIO toggle), 2 (failsafe), 7 (altitude hold).
\<close>

definition alt_hold_msg :: "bool \<Rightarrow> string" where
  "alt_hold_msg b = ''Altitude Hold '' @ (if b then ''ON'' else ''OFF'') @ ''       ''"

definition buttons :: "ctl \<Rightarrow> tick \<Rightarrow> bool list \<Rightarrow> ctl flow" where
  "buttons s i button =
     (if pressed button 9 then
        (if link_up i then Break (s\<lparr>trace := trace s @ [Reboot]\<rparr>) else Raise s)
      else if pressed button 0 then
        Next (s\<lparr>cursor_msg := ''Sending Arm command...'', CMDS := (CMDS s)\<lparr>aux1 := 1800\<rparr>\<rparr>)
      else if pressed button 1 then
        Next (s\<lparr>cursor_msg := ''Sending Disarm command...'', CMDS := (CMDS s)\<lparr>aux1 := 1000\<rparr>\<rparr>)
      else if pressed button 3 then
        Next (s\<lparr>state23 := \<not> state23 s, trace := trace s @ [GpioOutput (\<not> state23 s)]\<rparr>)
      else if pressed button 2 then
        Next (s\<lparr>CMDS := (CMDS s)\<lparr>aux2 := 1800\<rparr>, cursor_msg := ''FAILSAFE''\<rparr>)
      else if pressed button 7 then
        (if now i - last_alt_toggle_time s > DEBOUNCE_TIME then
           (if \<not> link_up i then Raise (s\<lparr>last_alt_toggle_time := now i\<rparr>)
            else Next (s\<lparr>last_alt_toggle_time := now i,
                          trace := trace s @ [FastReadAltitude],
                          alt_setpoint := altitude_toggle i,
                          filtered_alt := altitude_toggle i,
                          ei := Some 0,
                          alt_hold := \<not> alt_hold s,
                          cursor_msg := alt_hold_msg (\<not> alt_hold s)\<rparr>))
         else Next s)
      else Next s)"

text \<open>Lines 230-234: the frame is sent when the fast period has elapsed.\<close>

definition send_rc :: "ctl \<Rightarrow> tick \<Rightarrow> ctl flow" where
  "send_rc s i =
     (if fast_clock i - last_loop_time s \<ge> CTRL_LOOP_TIME then
        (if link_up i
         then Next (s\<lparr>last_loop_time := fast_clock i,
                       trace := trace s @ [SendRC (frame (CMDS s))]\<rparr>)
         else Raise (s\<lparr>last_loop_time := fast_clock i\<rparr>))
      else Next s)"

text \<open>
  Lines 236-251: one telemetry query when the slow period has elapsed; the reply to
  \<^verbatim>\<open>MSP_ANALOG\<close> is classified.  The other replies are only displayed.
\<close>

definition slow_cycle :: "msp list" where
  "slow_cycle = [MSP_ANALOG, MSP_STATUS_EX, MSP_MOTOR, MSP_RC]"

definition slow_msg :: "ctl \<Rightarrow> tick \<Rightarrow> ctl flow" where
  "slow_msg s i =
     (if slow_clock i - last_slow_msg_time s \<ge> SLOW_MSGS_LOOP_TIME then
        let next_msg = slow_cycle ! (slow_msgs s mod 4);
            s1 = s\<lparr>last_slow_msg_time := slow_clock i, slow_msgs := (slow_msgs s + 1) mod 4\<rparr>
        in if \<not> link_up i then Raise s1
           else
             let s2 = s1\<lparr>trace := trace s1 @ [SendMsg next_msg]\<rparr>
             in Next (if next_msg = MSP_ANALOG
                      then s2\<lparr>voltage_msg :=
                                voltage_message (min_voltage s2) (warn_voltage s2)
                                  (max_voltage s2) (analog_voltage i)\<rparr>
                      else s2)
      else Next s)"

text \<open>The body of \<^verbatim>\<open>while True\<close>, lines 146-288.\<close>

definition loop_body :: "ctl \<Rightarrow> tick \<Rightarrow> ctl flow" where
  "loop_body s i =
     (case joystick i of
        None \<Rightarrow> Next (joystick_lost s)
      | Some (axis, button) \<Rightarrow>
          (case channel_map axis button (yaw_trim s) of
             None \<Rightarrow> Raise s
           | Some ((raw_throttle, raw_roll, raw_pitch, raw_yaw), yaw_trim1) \<Rightarrow>
               then_do (throttle_stage (s\<lparr>yaw_trim := yaw_trim1\<rparr>) i raw_throttle) (\<lambda>s1.
               then_do (buttons (set_attitude s1 raw_yaw raw_roll raw_pitch) i button) (\<lambda>s2.
               then_do (send_rc s2 i) (\<lambda>s3.
               slow_msg s3 i)))))"

text \<open>
  The loop over the iterations whose inputs are given.  \<open>Next s\<close> for the whole list
  means that the loop is still running after it.
\<close>

fun run_loop :: "ctl \<Rightarrow> tick list \<Rightarrow> ctl flow" where
  "run_loop s [] = Next s"
| "run_loop s (i # rest) =
     (case loop_body s i of
        Next s' \<Rightarrow> run_loop s' rest
      | Break s' \<Rightarrow> Break s'
      | Raise s' \<Rightarrow> Raise s')"

section \<open>\<^verbatim>\<open>joy_controller\<close> of \<^verbatim>\<open>newcode.py\<close>\<close>

text \<open>
  What happens before the loop.  \<open>board_is_1\<close>: the context manager yields 1 (no
  connection) and the function returns 1.  \<open>setup_raises\<close>: one of the configuration
  queries or the first \<^verbatim>\<open>update()\<close>, which is outside the loop's \<^verbatim>\<open>try\<close>, raises.
  The battery thresholds are the per-cell voltages times the cell count.
\<close>

record startup =
  board_is_1 :: bool
  setup_raises :: bool
  cellCount :: real
  vbatmincellvoltage :: real
  vbatwarningcellvoltage :: real
  vbatmaxcellvoltage :: real
  start_clock :: real

definition initial :: "startup \<Rightarrow> ctl" where
  "initial st =
     \<lparr>CMDS = CMDS0, alt_hold = False, alt_setpoint = 0, alt = 0, eh = 0, ei = None,
      last_alt_toggle_time = 0, filtered_alt = 0, yaw_trim = 0, state23 = False,
      cursor_msg = [],
      min_voltage = vbatmincellvoltage st * cellCount st,
      warn_voltage = vbatwarningcellvoltage st * cellCount st,
      max_voltage = vbatmaxcellvoltage st * cellCount st,
      voltage_msg = [], slow_msgs = 0,
      last_loop_time = start_clock st, last_slow_msg_time = start_clock st,
      trace = []\<rparr>"

datatype exit = Returned1 | ReturnedNone | Raised | Running

text \<open>
  Leaving the \<^verbatim>\<open>with\<close> block closes the link; the \<^verbatim>\<open>finally\<close> clause (lines
  290-294) then drives the pin low and releases the GPIO.
\<close>

definition with_exit :: "ctl \<Rightarrow> ctl" where
  "with_exit s = s\<lparr>trace := trace s @ [LinkClosed]\<rparr>"

definition finally_clause :: "ctl \<Rightarrow> ctl" where
  "finally_clause s = s\<lparr>trace := trace s @ [GpioOutput False, GpioCleanup]\<rparr>"

definition joy_controller :: "startup \<Rightarrow> tick list \<Rightarrow> exit \<times> ctl" where
  "joy_controller st inputs =
     (if board_is_1 st then (Returned1, finally_clause (with_exit (initial st)))
      else if setup_raises st then (Raised, finally_clause (with_exit (initial st)))
      else case run_loop (initial st) inputs of
             Next s \<Rightarrow> (Running, s)
           | Break s \<Rightarrow> (ReturnedNone, finally_clause (with_exit s))
           | Raise s \<Rightarrow> (Raised, finally_clause (with_exit s)))"

section \<open>\<^verbatim>\<open>UIjoy.py\<close>\<close>

text \<open>
  The older script has no altitude hold, no GPIO and no telemetry; its throttle is a trim
  stepped by two buttons, its yaw is an axis, and it sends the frame in every iteration
  that reaches the send.
\<close>

record ui =
  ui_CMDS :: cmds
  throttle_trim :: int
  ui_trace :: "event list"

text \<open>Lines 114-117: the throttle trim after the two trim buttons.\<close>

definition step_trim :: "bool list \<Rightarrow> int \<Rightarrow> int" where
  "step_trim button trim =
     (if pressed button 7 then min 1200 (trim + 5)
      else if pressed button 6 then max 0 (trim - 5)
      else trim)"

text \<open>
  Lines 114-125: trim, throttle, roll, pitch and yaw.  \<^verbatim>\<open>axis[3]\<close> and
  \<^verbatim>\<open>axis[4]\<close> raise IndexError on a shorter list, after the throttle (and, for
  \<^verbatim>\<open>axis[4]\<close>, the roll) has been written.
\<close>

definition ui_channels :: "ui \<Rightarrow> real list \<Rightarrow> bool list \<Rightarrow> ui flow" where
  "ui_channels s axis button =
     (let trim = step_trim button (throttle_trim s);
          s1 = s\<lparr>throttle_trim := trim, ui_CMDS := (ui_CMDS s)\<lparr>throttle := 900 + trim\<rparr>\<rparr>
      in if length axis \<le> 3 then Raise s1
         else
           let s2 = s1\<lparr>ui_CMDS := (ui_CMDS s1)\<lparr>roll := scale_axis (axis ! 3)\<rparr>\<rparr>
           in if length axis \<le> 4 then Raise s2
              else Next (s2\<lparr>ui_CMDS := (ui_CMDS s2)\<lparr>pitch := scale_axis (- (axis ! 4)),
                                                     yaw := scale_axis (axis ! 0)\<rparr>\<rparr>))"

text \<open>
  Lines 127-139: the button chain, in the order 0 (arm), 1 (disarm), 3 (mode), 2
  (failsafe), 9 (reboot).
\<close>

definition ui_buttons :: "ui \<Rightarrow> tick \<Rightarrow> bool list \<Rightarrow> ui flow" where
  "ui_buttons s i button =
     (if pressed button 0 then Next (s\<lparr>ui_CMDS := (ui_CMDS s)\<lparr>aux1 := 1800\<rparr>\<rparr>)
      else if pressed button 1 then Next (s\<lparr>ui_CMDS := (ui_CMDS s)\<lparr>aux1 := 1000\<rparr>\<rparr>)
      else if pressed button 3 then
        Next (s\<lparr>ui_CMDS := (ui_CMDS s)\<lparr>aux2 := (aux2 (ui_CMDS s) + 500) mod 2000\<rparr>\<rparr>)
      else if pressed button 2 then Next (s\<lparr>ui_CMDS := (ui_CMDS s)\<lparr>aux2 := 1800\<rparr>\<rparr>)
      else if pressed button 9 then
        (if link_up i then Break (s\<lparr>ui_trace := ui_trace s @ [Reboot]\<rparr>) else Raise s)
      else Next s)"

text \<open>Lines 141-144.\<close>

definition ui_send_rc :: "ui \<Rightarrow> tick \<Rightarrow> ui flow" where
  "ui_send_rc s i =
     (if link_up i then Next (s\<lparr>ui_trace := ui_trace s @ [SendRC (frame (ui_CMDS s))]\<rparr>)
      else Raise s)"

definition ui_loop_body :: "ui \<Rightarrow> tick \<Rightarrow> ui flow" where
  "ui_loop_body s i =
     (case joystick i of
        None \<Rightarrow> Next (s\<lparr>ui_CMDS := (ui_CMDS s)\<lparr>aux2 := 1800\<rparr>\<rparr>)
      | Some (axis, button) \<Rightarrow>
          then_do (ui_channels s axis button) (\<lambda>s1.
          then_do (ui_buttons s1 i button) (\<lambda>s2.
          ui_send_rc s2 i)))"

fun ui_run_loop :: "ui \<Rightarrow> tick list \<Rightarrow> ui flow" where
  "ui_run_loop s [] = Next s"
| "ui_run_loop s (i # rest) =
     (case ui_loop_body s i of
        Next s' \<Rightarrow> ui_run_loop s' rest
      | Break s' \<Rightarrow> Break s'
      | Raise s' \<Rightarrow> Raise s')"

definition ui_initial :: ui where
  "ui_initial = \<lparr>ui_CMDS = CMDS0, throttle_trim = 0, ui_trace = []\<rparr>"

text \<open>
  \<^verbatim>\<open>joy_controller\<close> of \<^verbatim>\<open>UIjoy.py\<close>: its \<^verbatim>\<open>finally\<close> clause (lines 156-158)
  only writes to the screen, so leaving the \<^verbatim>\<open>with\<close> block is the whole cleanup.
\<close>

definition ui_with_exit :: "ui \<Rightarrow> ui" where
  "ui_with_exit s = s\<lparr>ui_trace := ui_trace s @ [LinkClosed]\<rparr>"

definition ui_joy_controller :: "startup \<Rightarrow> tick list \<Rightarrow> exit \<times> ui" where
  "ui_joy_controller st inputs =
     (if board_is_1 st then (Returned1, ui_with_exit ui_initial)
      else if setup_raises st then (Raised, ui_with_exit ui_initial)
      else case ui_run_loop ui_initial inputs of
             Next s \<Rightarrow> (Running, s)
           | Break s \<Rightarrow> (ReturnedNone, ui_with_exit s)
           | Raise s \<Rightarrow> (Raised, ui_with_exit s))"

section \<open>Observations on a run\<close>

text \<open>The frames sent, in order.\<close>

fun frames :: "event list \<Rightarrow> int list list" where
  "frames [] = []"
| "frames (SendRC f # es) = f # frames es"
| "frames (e # es) = frames es"

text \<open>
  The level of the output pin after a trace: the last value written.  The main block
  drives the pin low before \<^verbatim>\<open>joy_controller\<close> starts.
\<close>

fun pin_level :: "bool \<Rightarrow> event list \<Rightarrow> bool" where
  "pin_level b [] = b"
| "pin_level b (GpioOutput v # es) = pin_level v es"
| "pin_level b (e # es) = pin_level b es"

text \<open>
  The times (\<open>now\<close> of the iteration) at which an iteration of a run changed
  \<^verbatim>\<open>alt_hold\<close>.
\<close>

fun hold_changes :: "ctl \<Rightarrow> tick list \<Rightarrow> real list" where
  "hold_changes s [] = []"
| "hold_changes s (i # rest) =
     (if alt_hold (state_of (loop_body s i)) \<noteq> alt_hold s then [now i] else []) @
     (case loop_body s i of Next s' \<Rightarrow> hold_changes s' rest | _ \<Rightarrow> [])"

section \<open>Concrete inputs\<close>

text \<open>
  Inputs for running the model on examples: a start-up that connects, with the default
  battery configuration of a three-cell pack; ten buttons with none or one pressed; an
  iteration in which \<^verbatim>\<open>update()\<close> raises; and an iteration with six centred axes,
  the given buttons, all three clock readings equal to \<open>t\<close> and both altitude readings
  equal to \<open>a\<close>.
\<close>

definition startup0 :: startup where
  "startup0 = \<lparr>board_is_1 = False, setup_raises = False, cellCount = 3,
      vbatmincellvoltage = 3.5, vbatwarningcellvoltage = 3.6, vbatmaxcellvoltage = 4.4,
      start_clock = 1000\<rparr>"

definition no_buttons :: "bool list" where
  "no_buttons = replicate 10 False"

definition only :: "nat \<Rightarrow> bool list" where
  "only n = no_buttons[n := True]"

definition lost :: "real \<Rightarrow> tick" where
  "lost t = \<lparr>joystick = None, link_up = True, altitude = 0, altitude_toggle = 0,
      now = t, fast_clock = t, slow_clock = t, analog_voltage = 11.5\<rparr>"

definition sticks :: "bool list \<Rightarrow> real \<Rightarrow> real \<Rightarrow> tick" where
  "sticks button t a = \<lparr>joystick = Some ([0, 0, 0, 0, 0, 0], button), link_up = True,
      altitude = a, altitude_toggle = a,
      now = t, fast_clock = t, slow_clock = t, analog_voltage = 11.5\<rparr>"

text \<open>A state in which the altitude hold is on, as the toggle leaves it at time 1000.\<close>

definition holding :: ctl where
  "holding = (initial startup0)\<lparr>alt_hold := True, alt_setpoint := 10, filtered_alt := 10,
      ei := Some 0, last_alt_toggle_time := 1000\<rparr>"

text \<open>
  An iteration that reaches the altitude-hold branch of the button chain: the joystick
  is read with at least five axes, the link is up, button 7 is pressed and none of the
  buttons tested before it (9, 0, 1, 3, 2) is.
\<close>

definition toggle_press :: "tick \<Rightarrow> bool" where
  "toggle_press i =
     (link_up i \<and>
      (case joystick i of
         None \<Rightarrow> False
       | Some (axis, button) \<Rightarrow>
           4 < length axis \<and> pressed button 7 \<and> \<not> pressed button 9 \<and> \<not> pressed button 0 \<and>
           \<not> pressed button 1 \<and> \<not> pressed button 3 \<and> \<not> pressed button 2))"

text \<open>
  An iteration of \<^verbatim>\<open>UIjoy.py\<close> that takes the mode branch of the button chain: the
  joystick is read, the channel code before the chain does not raise, and button 3 is
  pressed while buttons 0 and 1 are not.
\<close>

definition mode_press :: "tick \<Rightarrow> bool" where
  "mode_press i =
     (case joystick i of
        None \<Rightarrow> False
      | Some (axis, button) \<Rightarrow>
          4 < length axis \<and> pressed button 3 \<and> \<not> pressed button 0 \<and> \<not> pressed button 1)"

section \<open>Properties of the numeric functions\<close>

lemma py_int_mono: "x \<le> y \<Longrightarrow> py_int x \<le> py_int y"
proof -
  assume xy: "x \<le> y"
  show ?thesis
  proof (cases "0 \<le> x")
    case True
    with xy show ?thesis by (simp add: py_int_def floor_mono)
  next
    case neg: False
    show ?thesis
    proof (cases "0 \<le> y")
      case True
      from neg have "\<lceil>x\<rceil> \<le> 0" by simp
      moreover from True have "0 \<le> \<lfloor>y\<rfloor>" by simp
      ultimately have "\<lceil>x\<rceil> \<le> \<lfloor>y\<rfloor>" by (rule order_trans)
      with neg True show ?thesis by (simp add: py_int_def)
    next
      case False
      with xy neg show ?thesis by (simp add: py_int_def ceiling_mono)
    qed
  qed
qed

lemma scale_axis_mono: "a \<le> b \<Longrightarrow> scale_axis a \<le> scale_axis b"
proof -
  assume "a \<le> b"
  then have "a * 200 \<le> b * 200" by simp
  then have "py_int (a * 200) \<le> py_int (b * 200)" by (rule py_int_mono)
  then show ?thesis unfolding scale_axis_def by linarith
qed

lemma scale_axis_range: "1300 \<le> scale_axis a \<and> scale_axis a \<le> 1700"
  unfolding scale_axis_def by linarith

lemma scale_throttle_values:
  "scale_throttle 0 = 1600" "scale_throttle 1 = 1800" "scale_throttle (- 1) = 950"
  by (simp_all add: scale_throttle_def py_int_def)

lemma scale_throttle_forward:
  "0 \<le> v \<Longrightarrow> v \<le> 1 \<Longrightarrow> scale_throttle v = \<lfloor>1600 + 200 * v\<rfloor>"
  by (simp add: scale_throttle_def py_int_def max_def min_def mult.commute)

lemma scale_throttle_reverse:
  "- 1 \<le> v \<Longrightarrow> v < 0 \<Longrightarrow> scale_throttle v = \<lfloor>1600 + 650 * v\<rfloor>"
proof -
  assume a: "- 1 \<le> v" "v < 0"
  then have "0 \<le> 1600 + v * 650" by simp
  with a show ?thesis
    by (simp add: scale_throttle_def py_int_def max_def min_def mult.commute)
qed

lemma scale_throttle_saturates:
  "1 < v \<Longrightarrow> scale_throttle v = 1800" "v < - 1 \<Longrightarrow> scale_throttle v = 950"
  by (simp_all add: scale_throttle_def py_int_def max_def min_def)

lemma scale_throttle_range: "950 \<le> scale_throttle v \<and> scale_throttle v \<le> 1800"
proof -
  consider "v < - 1" | "- 1 \<le> v" "v < 0" | "0 \<le> v" "v \<le> 1" | "1 < v" by linarith
  then show ?thesis
  proof cases
    case 1
    then show ?thesis by (simp add: scale_throttle_saturates)
  next
    case 2
    then have e: "scale_throttle v = \<lfloor>1600 + 650 * v\<rfloor>" by (rule scale_throttle_reverse)
    from 2 have "real_of_int 950 \<le> 1600 + 650 * v" "1600 + 650 * v < real_of_int 1800 + 1"
      by simp_all
    then have "950 \<le> \<lfloor>1600 + 650 * v\<rfloor>" "\<lfloor>1600 + 650 * v\<rfloor> \<le> 1800"
      unfolding le_floor_iff floor_le_iff by blast+
    with e show ?thesis by simp
  next
    case 3
    then have e: "scale_throttle v = \<lfloor>1600 + 200 * v\<rfloor>" by (rule scale_throttle_forward)
    from 3 have "real_of_int 950 \<le> 1600 + 200 * v" "1600 + 200 * v < real_of_int 1800 + 1"
      by simp_all
    then have "950 \<le> \<lfloor>1600 + 200 * v\<rfloor>" "\<lfloor>1600 + 200 * v\<rfloor> \<le> 1800"
      unfolding le_floor_iff floor_le_iff by blast+
    with e show ?thesis by simp
  next
    case 4
    then show ?thesis by (simp add: scale_throttle_saturates)
  qed
qed

lemma scale_throttle_right_of_0: "0 \<le> v \<Longrightarrow> v < 1 / 200 \<Longrightarrow> scale_throttle v = 1600"
proof -
  assume a: "0 \<le> v" "v < 1 / 200"
  then have e: "scale_throttle v = \<lfloor>1600 + 200 * v\<rfloor>" by (simp add: scale_throttle_forward)
  from a have "real_of_int 1600 \<le> 1600 + 200 * v" "1600 + 200 * v < real_of_int 1600 + 1"
    by simp_all
  then have "\<lfloor>1600 + 200 * v\<rfloor> = 1600" by (rule floor_unique)
  with e show ?thesis by simp
qed

lemma scale_throttle_left_of_0: "- 1 / 650 < v \<Longrightarrow> v < 0 \<Longrightarrow> scale_throttle v = 1599"
proof -
  assume a: "- 1 / 650 < v" "v < 0"
  then have e: "scale_throttle v = \<lfloor>1600 + 650 * v\<rfloor>" by (simp add: scale_throttle_reverse)
  from a have "real_of_int 1599 \<le> 1600 + 650 * v" "1600 + 650 * v < real_of_int 1599 + 1"
    by simp_all
  then have "\<lfloor>1600 + 650 * v\<rfloor> = 1599" by (rule floor_unique)
  with e show ?thesis by simp
qed

section \<open>Roll mapping: monotone and in range\<close>

text \<open>
  Claim C7.  For axis inputs \<open>a \<le> b\<close> in \<open>[-1, 1]\<close>, the roll mapping
  \<open>scale_axis\<close> gives \<open>scale_axis a \<le> scale_axis b\<close>, and both values lie in
  \<open>[1300, 1700]\<close>.
\<close>

theorem scale_axis_monotone_in_range:
  "- 1 \<le> a \<Longrightarrow> a \<le> b \<Longrightarrow> b \<le> 1 \<Longrightarrow>
   scale_axis a \<le> scale_axis b \<and>
   1300 \<le> scale_axis a \<and> scale_axis a \<le> 1700 \<and>
   1300 \<le> scale_axis b \<and> scale_axis b \<le> 1700"
  using scale_axis_mono [of a b] scale_axis_range [of a] scale_axis_range [of b] by simp

theorem scale_axis_monotone_in_range_witness:
  "- 1 \<le> (- 1 / 2 :: real) \<and> (- 1 / 2 :: real) \<le> 1 / 4 \<and> (1 / 4 :: real) \<le> 1 \<and>
   scale_axis (- 1 / 2) \<le> scale_axis (1 / 4) \<and>
   scale_axis (- 1 / 2) = 1400 \<and> scale_axis (1 / 4) = 1550"
  using scale_axis_monotone_in_range [of "- 1 / 2" "1 / 4"]
  by (simp add: scale_axis_def py_int_def)

section \<open>Directional throttle\<close>

text \<open>
  Claim C8, as stated, asks the throttle mapping to be continuous at 0.  The integer
  output is not: \<^verbatim>\<open>int()\<close> truncates, so every input just below 0 gives 1599 while 0
  gives 1600.
\<close>

theorem throttle_not_continuous_at_0: "\<not> isCont throttle_out 0"
proof
  assume "isCont throttle_out 0"
  then have "\<forall>r>0. \<exists>s>0. \<forall>x. x \<noteq> 0 \<and> norm (x - 0) < s \<longrightarrow>
                norm (throttle_out x - throttle_out 0) < r"
    unfolding isCont_def LIM_eq .
  then have "\<exists>s>0. \<forall>x. x \<noteq> 0 \<and> norm (x - 0) < s \<longrightarrow>
                norm (throttle_out x - throttle_out 0) < 1"
    using zero_less_one by blast
  then obtain d where d: "d > 0"
      "\<forall>x. x \<noteq> 0 \<and> norm (x - 0) < d \<longrightarrow> norm (throttle_out x - throttle_out 0) < 1"
    by blast
  define x where "x = - min (d / 2) (1 / 1000)"
  from d(1) have x: "\<bar>x\<bar> < d" "- 1 / 650 < x" "x < 0"
    by (simp_all add: x_def min_def)
  then have "scale_throttle x = 1599" by (simp add: scale_throttle_left_of_0)
  then have "\<bar>throttle_out x - throttle_out 0\<bar> = 1"
    by (simp add: throttle_out_def scale_throttle_values)
  moreover from d(2) x have "norm (throttle_out x - throttle_out 0) < 1" by simp
  ultimately show False by simp
qed

text \<open>
  Claim C8, amended.  \<open>scale_throttle 0 = 1600\<close>, \<open>scale_throttle 1 = 1800\<close>,
  \<open>scale_throttle (-1) = 950\<close>; every output lies in \<open>[950, 1800]\<close>; an input in
  \<open>[0, 1]\<close> gives \<open>1600 + 200 v\<close> and an input in \<open>[-1, 0)\<close> gives \<open>1600 + 650 v\<close>,
  each cut to the integer below, and inputs outside \<open>[-1, 1]\<close> give the end values.
  Around 0 the output is 1600 on \<open>[0, 1/200)\<close> and 1599 on \<open>(-1/650, 0)\<close>: the two
  halves meet in 1600, with a step of one unit on the reverse side.
\<close>

theorem scale_throttle_asymmetric_split:
  "scale_throttle 0 = 1600 \<and> scale_throttle 1 = 1800 \<and> scale_throttle (- 1) = 950 \<and>
   950 \<le> scale_throttle v \<and> scale_throttle v \<le> 1800 \<and>
   (0 \<le> v \<and> v \<le> 1 \<longrightarrow> scale_throttle v = \<lfloor>1600 + 200 * v\<rfloor>) \<and>
   (- 1 \<le> v \<and> v < 0 \<longrightarrow> scale_throttle v = \<lfloor>1600 + 650 * v\<rfloor>) \<and>
   (1 < v \<longrightarrow> scale_throttle v = 1800) \<and>
   (v < - 1 \<longrightarrow> scale_throttle v = 950) \<and>
   (0 \<le> v \<and> v < 1 / 200 \<longrightarrow> scale_throttle v = 1600) \<and>
   (- 1 / 650 < v \<and> v < 0 \<longrightarrow> scale_throttle v = 1599)"
  using scale_throttle_range [of v] scale_throttle_values
    scale_throttle_forward [of v] scale_throttle_reverse [of v]
    scale_throttle_saturates [of v]
    scale_throttle_right_of_0 [of v] scale_throttle_left_of_0 [of v]
  by blast

theorem scale_throttle_asymmetric_split_witness:
  "scale_throttle (- 1 / 1000) = 1599 \<and> scale_throttle (- 1 / 1000) = \<lfloor>1600 + 650 * (- 1 / 1000 :: real)\<rfloor> \<and>
   950 \<le> scale_throttle (- 1 / 1000) \<and> scale_throttle (- 1 / 1000) \<le> 1800"
  using scale_throttle_asymmetric_split [of "- 1 / 1000"] by simp

section \<open>Battery voltage bands: the four cases\<close>

text \<open>
  Claim C9.  For thresholds \<open>min < warn < max\<close> the message is the critical one
  (\<^verbatim>\<open>ULTRA LOW BATT!!!\<close>) when \<open>v \<le> min\<close>, the low warning when
  \<open>min < v \<le> warn\<close>, empty (normal) when \<open>warn < v < max\<close>, and the over-voltage one
  when \<open>v \<ge> max\<close>; with 10.5, 10.8 and 12.6 the readings 10.4, 10.6, 11.5 and 12.7
  fall in these four bands in this order.
\<close>

theorem voltage_message_bands:
  "mn < wn \<Longrightarrow> wn < mx \<Longrightarrow>
   (v \<le> mn \<longrightarrow> voltage_message mn wn mx v = ''ULTRA LOW BATT!!!'') \<and>
   (mn < v \<and> v \<le> wn \<longrightarrow> voltage_message mn wn mx v = ''LOW BATT WARNING'') \<and>
   (wn < v \<and> v < mx \<longrightarrow> voltage_message mn wn mx v = []) \<and>
   (mx \<le> v \<longrightarrow> voltage_message mn wn mx v = ''VOLTAGE TOO HIGH'') \<and>
   voltage_message 10.5 10.8 12.6 10.4 = ''ULTRA LOW BATT!!!'' \<and>
   voltage_message 10.5 10.8 12.6 10.6 = ''LOW BATT WARNING'' \<and>
   voltage_message 10.5 10.8 12.6 11.5 = [] \<and>
   voltage_message 10.5 10.8 12.6 12.7 = ''VOLTAGE TOO HIGH''"
  by (simp add: voltage_message_def)

theorem voltage_message_bands_witness:
  "(10.5 :: real) < 10.8 \<and> (10.8 :: real) < 12.6 \<and>
   voltage_message 10.5 10.8 12.6 10.5 = ''ULTRA LOW BATT!!!'' \<and>
   voltage_message 10.5 10.8 12.6 10.4 = ''ULTRA LOW BATT!!!''"
  using voltage_message_bands [of "10.5" "10.8" "12.6" "10.5"] by simp

section \<open>The loop body, stage by stage\<close>

lemma pressed_only: "pressed (only n) m = (n < 10 \<and> m = n)"
proof (cases "m < 10")
  case True
  then show ?thesis
    by (cases "n < 10") (auto simp: pressed_def only_def no_buttons_def nth_list_update)
next
  case False
  then show ?thesis by (auto simp: pressed_def only_def no_buttons_def)
qed

lemma pressed_no_buttons: "\<not> pressed no_buttons m"
  by (auto simp: pressed_def no_buttons_def)

lemma toggle_press_sticks: "toggle_press (sticks (only 7) t a)"
  by (simp add: toggle_press_def sticks_def pressed_only)

lemma toggle_pressD:
  assumes "toggle_press i"
  obtains axis button where "joystick i = Some (axis, button)" "4 < length axis" "link_up i"
    "pressed button 7" "\<not> pressed button 9" "\<not> pressed button 0" "\<not> pressed button 1"
    "\<not> pressed button 3" "\<not> pressed button 2"
  using assms by (auto simp: toggle_press_def split: option.splits)

lemma then_do_simps [simp]:
  "then_do (Next s) f = f s" "then_do (Break s) f = Break s" "then_do (Raise s) f = Raise s"
  by (simp_all add: then_do_def)

lemma state_of_simps [simp]:
  "state_of (Next s) = s" "state_of (Break s) = s" "state_of (Raise s) = s"
  by (simp_all add: state_of_def)

lemma loop_body_lost: "joystick i = None \<Longrightarrow> loop_body s i = Next (joystick_lost s)"
  by (simp add: loop_body_def)

lemma loop_body_sticks:
  "joystick i = Some (axis, button) \<Longrightarrow> 4 < length axis \<Longrightarrow>
   loop_body s i =
     then_do (throttle_stage (s\<lparr>yaw_trim := snd (scale_yaw button (yaw_trim s))\<rparr>) i
                (scale_throttle (- (axis ! 1)))) (\<lambda>s1.
     then_do (buttons (set_attitude s1 (fst (scale_yaw button (yaw_trim s)))
                (scale_axis (axis ! 3)) (scale_axis (- (axis ! 4)))) i button) (\<lambda>s2.
     then_do (send_rc s2 i) (\<lambda>s3. slow_msg s3 i)))"
  by (simp add: loop_body_def channel_map_def Let_def split: prod.splits)

lemma loop_body_short: "joystick i = Some (axis, button) \<Longrightarrow> length axis \<le> 4 \<Longrightarrow> loop_body s i = Raise s"
  by (simp add: loop_body_def channel_map_def)

text \<open>
  The two sends at the end of the body touch only the clocks, the trace, the cursor of the
  telemetry cycle and the voltage message.
\<close>

lemma tail_link_up:
  "link_up i \<Longrightarrow> \<exists>l t ls sm vm.
     then_do (send_rc s i) (\<lambda>s3. slow_msg s3 i) =
       Next (s\<lparr>last_loop_time := l, trace := t, last_slow_msg_time := ls, slow_msgs := sm,
                voltage_msg := vm\<rparr>)"
proof -
  assume up: "link_up i"
  obtain l t where 1: "send_rc s i = Next (s\<lparr>last_loop_time := l, trace := t\<rparr>)"
  proof (cases "fast_clock i - last_loop_time s \<ge> CTRL_LOOP_TIME")
    case True
    with up have "send_rc s i = Next (s\<lparr>last_loop_time := fast_clock i, trace := trace s @ [SendRC (frame (CMDS s))]\<rparr>)"
      by (simp add: send_rc_def)
    then show ?thesis by (rule that)
  next
    case False
    then have "send_rc s i = Next (s\<lparr>last_loop_time := last_loop_time s, trace := trace s\<rparr>)"
      by (simp add: send_rc_def)
    then show ?thesis by (rule that)
  qed
  define s1 where "s1 = s\<lparr>last_loop_time := l, trace := t\<rparr>"
  obtain t' ls sm vm where 2: "slow_msg s1 i = Next (s1\<lparr>trace := t', last_slow_msg_time := ls, slow_msgs := sm, voltage_msg := vm\<rparr>)"
  proof (cases "slow_clock i - last_slow_msg_time s1 \<ge> SLOW_MSGS_LOOP_TIME")
    case True
    show ?thesis
    proof (cases "slow_cycle ! (slow_msgs s1 mod 4) = MSP_ANALOG")
      case an: True
      with True up have "slow_msg s1 i = Next (s1\<lparr>trace := trace s1 @ [SendMsg MSP_ANALOG], last_slow_msg_time := slow_clock i,
          slow_msgs := (slow_msgs s1 + 1) mod 4, voltage_msg := voltage_message (min_voltage s1) (warn_voltage s1) (max_voltage s1) (analog_voltage i)\<rparr>)"
        by (simp add: slow_msg_def Let_def)
      then show ?thesis by (rule that)
    next
      case an: False
      with True up have "slow_msg s1 i = Next (s1\<lparr>trace := trace s1 @ [SendMsg (slow_cycle ! (slow_msgs s1 mod 4))], last_slow_msg_time := slow_clock i,
          slow_msgs := (slow_msgs s1 + 1) mod 4, voltage_msg := voltage_msg s1\<rparr>)"
        by (simp add: slow_msg_def Let_def)
      then show ?thesis by (rule that)
    qed
  next
    case False
    then have "slow_msg s1 i = Next (s1\<lparr>trace := trace s1, last_slow_msg_time := last_slow_msg_time s1,
          slow_msgs := slow_msgs s1, voltage_msg := voltage_msg s1\<rparr>)"
      by (simp add: slow_msg_def)
    then show ?thesis by (rule that)
  qed
  from 1 2 have "then_do (send_rc s i) (\<lambda>s3. slow_msg s3 i) =
       Next (s\<lparr>last_loop_time := l, trace := t', last_slow_msg_time := ls, slow_msgs := sm,
                voltage_msg := vm\<rparr>)"
    by (simp add: then_do_def s1_def)
  then show ?thesis by blast
qed


lemma tail_fields:
  "CMDS (state_of (then_do (send_rc s i) (\<lambda>s3. slow_msg s3 i))) = CMDS s"
  "alt_hold (state_of (then_do (send_rc s i) (\<lambda>s3. slow_msg s3 i))) = alt_hold s"
  "alt_setpoint (state_of (then_do (send_rc s i) (\<lambda>s3. slow_msg s3 i))) = alt_setpoint s"
  "alt (state_of (then_do (send_rc s i) (\<lambda>s3. slow_msg s3 i))) = alt s"
  "eh (state_of (then_do (send_rc s i) (\<lambda>s3. slow_msg s3 i))) = eh s"
  "ei (state_of (then_do (send_rc s i) (\<lambda>s3. slow_msg s3 i))) = ei s"
  "last_alt_toggle_time (state_of (then_do (send_rc s i) (\<lambda>s3. slow_msg s3 i))) = last_alt_toggle_time s"
  "filtered_alt (state_of (then_do (send_rc s i) (\<lambda>s3. slow_msg s3 i))) = filtered_alt s"
  "yaw_trim (state_of (then_do (send_rc s i) (\<lambda>s3. slow_msg s3 i))) = yaw_trim s"
  "state23 (state_of (then_do (send_rc s i) (\<lambda>s3. slow_msg s3 i))) = state23 s"
  by (simp_all add: send_rc_def slow_msg_def then_do_def state_of_def Let_def)

lemma state_of_then_do:
  "state_of (then_do r f) = (case r of Next s \<Rightarrow> state_of (f s) | Break s \<Rightarrow> s | Raise s \<Rightarrow> s)"
  by (simp add: then_do_def state_of_def split: flow.splits)

lemma throttle_stage_off:
  "\<not> alt_hold s \<Longrightarrow> throttle_stage s i r = Next (s\<lparr>CMDS := (CMDS s)\<lparr>throttle := r\<rparr>\<rparr>)"
  by (simp add: throttle_stage_def)


lemma throttle_stage_Next:
  "link_up i \<Longrightarrow> (alt_hold s \<longrightarrow> ei s \<noteq> None) \<Longrightarrow>
   \<exists>s1. throttle_stage s i r = Next s1 \<and> aux1 (CMDS s1) = aux1 (CMDS s) \<and>
     aux2 (CMDS s1) = aux2 (CMDS s) \<and> state23 s1 = state23 s \<and> alt_hold s1 = alt_hold s \<and>
     last_alt_toggle_time s1 = last_alt_toggle_time s \<and> yaw_trim s1 = yaw_trim s \<and>
     (alt_hold s1 \<longrightarrow> ei s1 \<noteq> None)"
  by (cases "alt_hold s") (auto simp: throttle_stage_def Let_def)


lemma buttons_toggle:
  "pressed button 7 \<Longrightarrow> \<not> pressed button 9 \<Longrightarrow> \<not> pressed button 0 \<Longrightarrow> \<not> pressed button 1 \<Longrightarrow>
   \<not> pressed button 3 \<Longrightarrow> \<not> pressed button 2 \<Longrightarrow> link_up i \<Longrightarrow>
   now i - last_alt_toggle_time s > 0.5 \<Longrightarrow>
   buttons s i button =
     Next (s\<lparr>last_alt_toggle_time := now i, trace := trace s @ [FastReadAltitude],
              alt_setpoint := altitude_toggle i, filtered_alt := altitude_toggle i,
              ei := Some 0, alt_hold := \<not> alt_hold s,
              cursor_msg := alt_hold_msg (\<not> alt_hold s)\<rparr>)"
  by (simp add: buttons_def DEBOUNCE_TIME_def)



lemma throttle_stage_fields:
  "aux1 (CMDS (state_of (throttle_stage s i r))) = aux1 (CMDS s)"
  "aux2 (CMDS (state_of (throttle_stage s i r))) = aux2 (CMDS s)"
  "alt_hold (state_of (throttle_stage s i r)) = alt_hold s"
  "last_alt_toggle_time (state_of (throttle_stage s i r)) = last_alt_toggle_time s"
  "state23 (state_of (throttle_stage s i r)) = state23 s"
  by (simp_all add: throttle_stage_def state_of_def Let_def split: option.splits)

lemma throttle_stage_no_Break: "throttle_stage s i r \<noteq> Break s'"
  by (simp add: throttle_stage_def Let_def split: option.splits)

text \<open>
  After an iteration whose joystick read succeeded, the state is either the one in which
  the throttle stage stopped, or it agrees with the state after the button chain on
  everything but clocks, trace and telemetry.
\<close>

lemma loop_body_state:
  assumes "joystick i = Some (axis, button)" "4 < length axis"
  shows "\<exists>s1. aux1 (CMDS s1) = aux1 (CMDS s) \<and> aux2 (CMDS s1) = aux2 (CMDS s) \<and>
      alt_hold s1 = alt_hold s \<and> last_alt_toggle_time s1 = last_alt_toggle_time s \<and>
      state23 s1 = state23 s \<and>
      (state_of (loop_body s i) = s1 \<or>
       (CMDS (state_of (loop_body s i)) = CMDS (state_of (buttons s1 i button)) \<and>
        alt_hold (state_of (loop_body s i)) = alt_hold (state_of (buttons s1 i button)) \<and>
        last_alt_toggle_time (state_of (loop_body s i)) =
          last_alt_toggle_time (state_of (buttons s1 i button)) \<and>
        state23 (state_of (loop_body s i)) = state23 (state_of (buttons s1 i button))))"
proof -
  define s0 where "s0 = s\<lparr>yaw_trim := snd (scale_yaw button (yaw_trim s))\<rparr>"
  define r where "r = throttle_stage s0 i (scale_throttle (- (axis ! 1)))"
  define att where "att = (\<lambda>s1. set_attitude s1 (fst (scale_yaw button (yaw_trim s)))
                (scale_axis (axis ! 3)) (scale_axis (- (axis ! 4))))"
  have lb: "loop_body s i = then_do r (\<lambda>s1. then_do (buttons (att s1) i button) (\<lambda>s2.
     then_do (send_rc s2 i) (\<lambda>s3. slow_msg s3 i)))"
    by (simp add: loop_body_sticks [OF assms] r_def s0_def att_def)
  have keep: "aux1 (CMDS (state_of r)) = aux1 (CMDS s)" "aux2 (CMDS (state_of r)) = aux2 (CMDS s)"
    "alt_hold (state_of r) = alt_hold s" "last_alt_toggle_time (state_of r) = last_alt_toggle_time s"
    "state23 (state_of r) = state23 s"
    by (simp_all add: r_def throttle_stage_fields s0_def)
  show ?thesis
  proof (cases r)
    case (Next s1)
    let ?s1 = "att s1"
    from keep Next have k: "aux1 (CMDS ?s1) = aux1 (CMDS s)" "aux2 (CMDS ?s1) = aux2 (CMDS s)"
      "alt_hold ?s1 = alt_hold s" "last_alt_toggle_time ?s1 = last_alt_toggle_time s"
      "state23 ?s1 = state23 s"
      by (simp_all add: state_of_def att_def set_attitude_def)
    have "CMDS (state_of (loop_body s i)) = CMDS (state_of (buttons ?s1 i button)) \<and>
        alt_hold (state_of (loop_body s i)) = alt_hold (state_of (buttons ?s1 i button)) \<and>
        last_alt_toggle_time (state_of (loop_body s i)) =
          last_alt_toggle_time (state_of (buttons ?s1 i button)) \<and>
        state23 (state_of (loop_body s i)) = state23 (state_of (buttons ?s1 i button))"
    proof (cases "buttons ?s1 i button")
      case n: (Next s2)
      then show ?thesis using Next by (simp add: lb tail_fields)
    next
      case (Break s2)
      then show ?thesis using Next by (simp add: lb)
    next
      case (Raise s2)
      then show ?thesis using Next by (simp add: lb)
    qed
    with k show ?thesis by blast
  next
    case (Break s1)
    with keep have "state_of (loop_body s i) = s1" by (simp add: lb)
    with keep Break show ?thesis by auto
  next
    case (Raise s1)
    with keep have "state_of (loop_body s i) = s1" by (simp add: lb)
    with keep Raise show ?thesis by auto
  qed
qed


lemma buttons_hold_change:
  "alt_hold (state_of (buttons s i button)) \<noteq> alt_hold s \<Longrightarrow>
   now i - last_alt_toggle_time s > 1 / 2 \<and>
   last_alt_toggle_time (state_of (buttons s i button)) = now i"
  by (auto simp: buttons_def state_of_def DEBOUNCE_TIME_def split: if_splits)

lemma buttons_last_mono:
  "last_alt_toggle_time s \<le> last_alt_toggle_time (state_of (buttons s i button))"
  by (auto simp: buttons_def state_of_def DEBOUNCE_TIME_def split: if_splits)


lemma loop_body_hold_change:
  assumes "alt_hold (state_of (loop_body s i)) \<noteq> alt_hold s"
  shows "now i - last_alt_toggle_time s > 1 / 2 \<and>
         last_alt_toggle_time (state_of (loop_body s i)) = now i"
proof (cases "joystick i")
  case None
  with assms show ?thesis by (simp add: loop_body_lost joystick_lost_def state_of_def)
next
  case (Some ab)
  obtain axis button where ab: "ab = (axis, button)" by (cases ab)
  show ?thesis
  proof (cases "4 < length axis")
    case True
    from Some ab have js: "joystick i = Some (axis, button)" by simp
    from loop_body_state [OF js True, of s] obtain s1 where
      s1: "alt_hold s1 = alt_hold s" "last_alt_toggle_time s1 = last_alt_toggle_time s"
       "state_of (loop_body s i) = s1 \<or>
       (alt_hold (state_of (loop_body s i)) = alt_hold (state_of (buttons s1 i button)) \<and>
        last_alt_toggle_time (state_of (loop_body s i)) =
          last_alt_toggle_time (state_of (buttons s1 i button)))"
      by blast
    with assms have "alt_hold (state_of (buttons s1 i button)) \<noteq> alt_hold s1" by auto
    from buttons_hold_change [OF this] s1 assms show ?thesis by auto
  next
    case False
    with Some ab assms show ?thesis by (simp add: loop_body_short state_of_def)
  qed
qed

lemma loop_body_last_mono:
  "last_alt_toggle_time s \<le> last_alt_toggle_time (state_of (loop_body s i))"
proof (cases "joystick i")
  case None
  then show ?thesis by (simp add: loop_body_lost joystick_lost_def state_of_def)
next
  case (Some ab)
  obtain axis button where ab: "ab = (axis, button)" by (cases ab)
  show ?thesis
  proof (cases "4 < length axis")
    case True
    from Some ab have js: "joystick i = Some (axis, button)" by simp
    from loop_body_state [OF js True, of s] obtain s1 where
      s1: "last_alt_toggle_time s1 = last_alt_toggle_time s"
       "state_of (loop_body s i) = s1 \<or>
        last_alt_toggle_time (state_of (loop_body s i)) =
          last_alt_toggle_time (state_of (buttons s1 i button))"
      by blast
    with buttons_last_mono [of s1 i button] show ?thesis by auto
  next
    case False
    with Some ab show ?thesis by (simp add: loop_body_short state_of_def)
  qed
qed

section \<open>Debounce: the times at which the hold state changes\<close>

lemma hold_changes_Cons:
  "hold_changes s (i # rest) =
     (if alt_hold (state_of (loop_body s i)) \<noteq> alt_hold s then [now i] else []) @
     (case loop_body s i of Next s' \<Rightarrow> hold_changes s' rest | _ \<Rightarrow> [])"
  by simp

lemma hold_changes_after_last:
  "t \<in> set (hold_changes s ins) \<Longrightarrow> last_alt_toggle_time s + 1 / 2 < t"
proof (induction ins arbitrary: s)
  case Nil
  then show ?case by simp
next
  case (Cons i rest)
  show ?case
  proof (cases "alt_hold (state_of (loop_body s i)) \<noteq> alt_hold s \<and> t = now i")
    case True
    with loop_body_hold_change [of s i] show ?thesis by simp
  next
    case False
    with Cons.prems have t: "t \<in> set (case loop_body s i of Next s' \<Rightarrow> hold_changes s' rest | _ \<Rightarrow> [])"
      by (auto split: if_splits)
    show ?thesis
    proof (cases "loop_body s i")
      case (Next s')
      with t have "t \<in> set (hold_changes s' rest)" by simp
      then have "last_alt_toggle_time s' + 1 / 2 < t" by (rule Cons.IH)
      moreover from loop_body_last_mono [of s i] Next
      have "last_alt_toggle_time s \<le> last_alt_toggle_time s'" by simp
      ultimately show ?thesis by simp
    next
      case (Break s')
      with t show ?thesis by simp
    next
      case (Raise s')
      with t show ?thesis by simp
    qed
  qed
qed

lemma hold_changes_spaced:
  "j < k \<Longrightarrow> k < length (hold_changes s ins) \<Longrightarrow>
   hold_changes s ins ! j + 1 / 2 < hold_changes s ins ! k"
proof (induction ins arbitrary: s j k)
  case Nil
  then show ?case by simp
next
  case (Cons i rest)
  define rs where "rs = (case loop_body s i of Next s' \<Rightarrow> hold_changes s' rest | _ \<Rightarrow> [])"
  have rs_spaced: "rs ! j' + 1 / 2 < rs ! k'" if "j' < k'" "k' < length rs" for j' k'
  proof (cases "loop_body s i")
    case (Next s')
    then have "rs = hold_changes s' rest" by (simp add: rs_def)
    with that Cons.IH [of j' k' s'] show ?thesis by simp
  next
    case (Break s')
    then have "rs = []" by (simp add: rs_def)
    with that show ?thesis by simp
  next
    case (Raise s')
    then have "rs = []" by (simp add: rs_def)
    with that show ?thesis by simp
  qed
  have rs_after: "last_alt_toggle_time (state_of (loop_body s i)) + 1 / 2 < t" if "t \<in> set rs" for t
  proof (cases "loop_body s i")
    case (Next s')
    then have "rs = hold_changes s' rest" by (simp add: rs_def)
    with that hold_changes_after_last [of t s' rest] Next show ?thesis by simp
  next
    case (Break s')
    then have "rs = []" by (simp add: rs_def)
    with that show ?thesis by simp
  next
    case (Raise s')
    then have "rs = []" by (simp add: rs_def)
    with that show ?thesis by simp
  qed
  show ?case
  proof (cases "alt_hold (state_of (loop_body s i)) \<noteq> alt_hold s")
    case False
    then have eq: "hold_changes s (i # rest) = rs"
      unfolding hold_changes_Cons rs_def by simp
    from Cons.prems rs_spaced [of j k] show ?thesis unfolding eq by simp
  next
    case True
    then have eq: "hold_changes s (i # rest) = now i # rs"
      unfolding hold_changes_Cons rs_def by simp
    from loop_body_hold_change [OF True]
    have last: "last_alt_toggle_time (state_of (loop_body s i)) = now i" by simp
    from Cons.prems obtain k' where k': "k = Suc k'" by (cases k) auto
    from Cons.prems(2) have k'len: "k' < length rs" unfolding eq k' by simp
    show ?thesis
    proof (cases j)
      case 0
      from k'len have "rs ! k' \<in> set rs" by simp
      from rs_after [OF this] last have "now i + 1 / 2 < rs ! k'" by simp
      then show ?thesis unfolding eq k' 0 by simp
    next
      case (Suc j')
      with Cons.prems(1) k' have "j' < k'" by simp
      from rs_spaced [OF this k'len] show ?thesis unfolding eq k' Suc by simp
    qed
  qed
qed

section \<open>Altitude hold\<close>



text \<open>
  When the throttle stage goes on, the state after the iteration agrees with the state
  after the button chain on everything the altitude hold uses.
\<close>

lemma loop_body_after_buttons:
  assumes "joystick i = Some (axis, button)" "4 < length axis"
    and "throttle_stage (s\<lparr>yaw_trim := snd (scale_yaw button (yaw_trim s))\<rparr>) i
           (scale_throttle (- (axis ! 1))) = Next s1"
    and "sb = state_of (buttons (set_attitude s1 (fst (scale_yaw button (yaw_trim s)))
                (scale_axis (axis ! 3)) (scale_axis (- (axis ! 4)))) i button)"
  shows "CMDS (state_of (loop_body s i)) = CMDS sb"
    "alt_hold (state_of (loop_body s i)) = alt_hold sb"
    "alt_setpoint (state_of (loop_body s i)) = alt_setpoint sb"
    "alt (state_of (loop_body s i)) = alt sb"
    "eh (state_of (loop_body s i)) = eh sb"
    "ei (state_of (loop_body s i)) = ei sb"
    "last_alt_toggle_time (state_of (loop_body s i)) = last_alt_toggle_time sb"
    "filtered_alt (state_of (loop_body s i)) = filtered_alt sb"
proof -
  define b where "b = buttons (set_attitude s1 (fst (scale_yaw button (yaw_trim s)))
                (scale_axis (axis ! 3)) (scale_axis (- (axis ! 4)))) i button"
  have lb: "loop_body s i = then_do b (\<lambda>s2. then_do (send_rc s2 i) (\<lambda>s3. slow_msg s3 i))"
    by (simp only: loop_body_sticks [OF assms(1,2)] assms(3) b_def then_do_simps)
  have sb: "sb = state_of b" by (simp add: assms(4) b_def)
  show "CMDS (state_of (loop_body s i)) = CMDS sb"
    "alt_hold (state_of (loop_body s i)) = alt_hold sb"
    "alt_setpoint (state_of (loop_body s i)) = alt_setpoint sb"
    "alt (state_of (loop_body s i)) = alt sb"
    "eh (state_of (loop_body s i)) = eh sb"
    "ei (state_of (loop_body s i)) = ei sb"
    "last_alt_toggle_time (state_of (loop_body s i)) = last_alt_toggle_time sb"
    "filtered_alt (state_of (loop_body s i)) = filtered_alt sb"
    unfolding lb sb by (cases b; simp add: tail_fields)+
qed

text \<open>With the link up, an iteration that the button chain lets through goes on.\<close>

lemma loop_body_Next:
  assumes "joystick i = Some (axis, button)" "4 < length axis" "link_up i"
    and "throttle_stage (s\<lparr>yaw_trim := snd (scale_yaw button (yaw_trim s))\<rparr>) i
           (scale_throttle (- (axis ! 1))) = Next s1"
    and "buttons (set_attitude s1 (fst (scale_yaw button (yaw_trim s)))
                (scale_axis (axis ! 3)) (scale_axis (- (axis ! 4)))) i button = Next s2"
  shows "\<exists>s'. loop_body s i = Next s'"
proof -
  from tail_link_up [OF assms(3), of s2] obtain s' where
    "then_do (send_rc s2 i) (\<lambda>s3. slow_msg s3 i) = Next s'" by blast
  then have "loop_body s i = Next s'"
    by (simp only: loop_body_sticks [OF assms(1,2)] assms(4,5) then_do_simps)
  then show ?thesis ..
qed

lemma toggle_enables_hold:
  assumes js: "joystick i = Some (axis, button)" "4 < length axis" and up: "link_up i"
    and b: "pressed button 7" "\<not> pressed button 9" "\<not> pressed button 0"
      "\<not> pressed button 1" "\<not> pressed button 3" "\<not> pressed button 2"
    and t: "now i - last_alt_toggle_time s > 0.5"
    and off: "\<not> alt_hold s"
  shows "\<exists>s'. loop_body s i = Next s' \<and> alt_hold s' \<and> alt_setpoint s' = altitude_toggle i \<and>
     filtered_alt s' = altitude_toggle i \<and> ei s' = Some 0 \<and> last_alt_toggle_time s' = now i"
proof -
  define s0 where "s0 = s\<lparr>yaw_trim := snd (scale_yaw button (yaw_trim s))\<rparr>"
  define s1 where "s1 = s0\<lparr>CMDS := (CMDS s0)\<lparr>throttle := scale_throttle (- (axis ! 1))\<rparr>\<rparr>"
  define s2 where "s2 = set_attitude s1 (fst (scale_yaw button (yaw_trim s)))
                (scale_axis (axis ! 3)) (scale_axis (- (axis ! 4)))"
  define s3 where "s3 = s2\<lparr>last_alt_toggle_time := now i, trace := trace s2 @ [FastReadAltitude],
              alt_setpoint := altitude_toggle i, filtered_alt := altitude_toggle i,
              ei := Some 0, alt_hold := \<not> alt_hold s2,
              cursor_msg := alt_hold_msg (\<not> alt_hold s2)\<rparr>"
  from off have st: "throttle_stage s0 i (scale_throttle (- (axis ! 1))) = Next s1"
    by (simp add: throttle_stage_off s0_def s1_def)
  have "last_alt_toggle_time s2 = last_alt_toggle_time s" "alt_hold s2 = alt_hold s"
    by (simp_all add: s2_def set_attitude_def s1_def s0_def)
  with t off have t2: "now i - last_alt_toggle_time s2 > 0.5" "\<not> alt_hold s2" by simp_all
  from buttons_toggle [OF b up t2(1)] have bt: "buttons s2 i button = Next s3"
    by (simp add: s3_def)
  from loop_body_Next [OF js up st [unfolded s0_def] bt [unfolded s2_def]]
  obtain s' where s': "loop_body s i = Next s'" ..
  from loop_body_after_buttons [OF js st [unfolded s0_def], of s3] bt s' t2(2)
  have "alt_hold s'" "alt_setpoint s' = altitude_toggle i" "filtered_alt s' = altitude_toggle i"
    "ei s' = Some 0" "last_alt_toggle_time s' = now i"
    by (simp_all add: s2_def s3_def)
  with s' show ?thesis by simp
qed





text \<open>
  Claim C4.  Whatever the filtered altitude and the integral were: in the iteration in
  which the altitude-hold toggle fires while hold is off, the loop goes on with hold on,
  the setpoint equal to the altitude read in that branch, the filtered altitude equal to
  the same value and the integral equal to 0.
\<close>

theorem hold_activation_resets:
  assumes "toggle_press i" "now i - last_alt_toggle_time s > 0.5" "\<not> alt_hold s"
  shows "\<exists>s'. loop_body s i = Next s' \<and> alt_hold s' \<and> alt_setpoint s' = altitude_toggle i \<and>
     filtered_alt s' = altitude_toggle i \<and> ei s' = Some 0 \<and> last_alt_toggle_time s' = now i"
proof -
  from assms(1) obtain axis button where js: "joystick i = Some (axis, button)" "4 < length axis"
    and up: "link_up i"
    and b: "pressed button 7" "\<not> pressed button 9" "\<not> pressed button 0" "\<not> pressed button 1"
    "\<not> pressed button 3" "\<not> pressed button 2"
    by (rule toggle_pressD)
  from js up b assms(2,3) show ?thesis by (rule toggle_enables_hold)
qed

theorem hold_activation_resets_witness:
  "toggle_press (sticks (only 7) 1001 12.5) \<and>
   \<not> alt_hold (holding\<lparr>alt_hold := False, filtered_alt := 3, ei := Some 7\<rparr>) \<and>
   alt_hold (state_of (loop_body (holding\<lparr>alt_hold := False, filtered_alt := 3, ei := Some 7\<rparr>)
      (sticks (only 7) 1001 12.5))) \<and>
   alt_setpoint (state_of (loop_body (holding\<lparr>alt_hold := False, filtered_alt := 3, ei := Some 7\<rparr>)
      (sticks (only 7) 1001 12.5))) = 12.5 \<and>
   filtered_alt (state_of (loop_body (holding\<lparr>alt_hold := False, filtered_alt := 3, ei := Some 7\<rparr>)
      (sticks (only 7) 1001 12.5))) = 12.5 \<and>
   ei (state_of (loop_body (holding\<lparr>alt_hold := False, filtered_alt := 3, ei := Some 7\<rparr>)
      (sticks (only 7) 1001 12.5))) = Some 0"
proof -
  have h: "now (sticks (only 7) 1001 12.5) -
      last_alt_toggle_time (holding\<lparr>alt_hold := False, filtered_alt := 3, ei := Some 7\<rparr>) > 0.5"
    "\<not> alt_hold (holding\<lparr>alt_hold := False, filtered_alt := 3, ei := Some 7\<rparr>)"
    "altitude_toggle (sticks (only 7) 1001 12.5) = 12.5"
    by (simp_all add: sticks_def holding_def)
  from hold_activation_resets [OF toggle_press_sticks h(1,2)] h toggle_press_sticks [of 1001 "12.5"]
  show ?thesis by auto
qed

section \<open>Debounced toggle\<close>

lemma buttons_debounced:
  "pressed button 7 \<Longrightarrow> \<not> pressed button 9 \<Longrightarrow> \<not> pressed button 0 \<Longrightarrow> \<not> pressed button 1 \<Longrightarrow>
   \<not> pressed button 3 \<Longrightarrow> \<not> pressed button 2 \<Longrightarrow>
   now i - last_alt_toggle_time s \<le> 0.5 \<Longrightarrow> buttons s i button = Next s"
  by (simp add: buttons_def DEBOUNCE_TIME_def)

lemma press_fires:
  assumes tp: "toggle_press i" and ok: "alt_hold s \<longrightarrow> ei s \<noteq> None"
    and t: "now i - last_alt_toggle_time s > 0.5"
  shows "\<exists>s'. loop_body s i = Next s' \<and> alt_hold s' = (\<not> alt_hold s) \<and>
     last_alt_toggle_time s' = now i \<and> ei s' = Some 0"
proof -
  from tp obtain axis button where js: "joystick i = Some (axis, button)" "4 < length axis"
    and up: "link_up i"
    and b: "pressed button 7" "\<not> pressed button 9" "\<not> pressed button 0" "\<not> pressed button 1"
    "\<not> pressed button 3" "\<not> pressed button 2"
    by (rule toggle_pressD)
  define s0 where "s0 = s\<lparr>yaw_trim := snd (scale_yaw button (yaw_trim s))\<rparr>"
  from ok have "alt_hold s0 \<longrightarrow> ei s0 \<noteq> None" by (simp add: s0_def)
  from throttle_stage_Next [OF up this, of "scale_throttle (- (axis ! 1))"]
  obtain s1 where st: "throttle_stage s0 i (scale_throttle (- (axis ! 1))) = Next s1"
    and s1: "alt_hold s1 = alt_hold s0" "last_alt_toggle_time s1 = last_alt_toggle_time s0"
    by blast
  define s2 where "s2 = set_attitude s1 (fst (scale_yaw button (yaw_trim s)))
                (scale_axis (axis ! 3)) (scale_axis (- (axis ! 4)))"
  define s3 where "s3 = s2\<lparr>last_alt_toggle_time := now i, trace := trace s2 @ [FastReadAltitude],
              alt_setpoint := altitude_toggle i, filtered_alt := altitude_toggle i,
              ei := Some 0, alt_hold := \<not> alt_hold s2,
              cursor_msg := alt_hold_msg (\<not> alt_hold s2)\<rparr>"
  have k: "last_alt_toggle_time s2 = last_alt_toggle_time s" "alt_hold s2 = alt_hold s"
    using s1 by (simp_all add: s2_def set_attitude_def s0_def)
  with t have t2: "now i - last_alt_toggle_time s2 > 0.5" by simp
  from buttons_toggle [OF b up t2] have bt: "buttons s2 i button = Next s3"
    by (simp add: s3_def)
  from loop_body_Next [OF js up st [unfolded s0_def] bt [unfolded s2_def]]
  obtain s' where s': "loop_body s i = Next s'" ..
  from loop_body_after_buttons [OF js st [unfolded s0_def], of s3] bt s' k
  have "alt_hold s' = (\<not> alt_hold s)" "last_alt_toggle_time s' = now i" "ei s' = Some 0"
    by (simp_all add: s2_def s3_def)
  with s' show ?thesis by simp
qed

lemma press_debounced:
  assumes tp: "toggle_press i" and ok: "alt_hold s \<longrightarrow> ei s \<noteq> None"
    and t: "now i - last_alt_toggle_time s \<le> 0.5"
  shows "\<exists>s'. loop_body s i = Next s' \<and> alt_hold s' = alt_hold s"
proof -
  from tp obtain axis button where js: "joystick i = Some (axis, button)" "4 < length axis"
    and up: "link_up i"
    and b: "pressed button 7" "\<not> pressed button 9" "\<not> pressed button 0" "\<not> pressed button 1"
    "\<not> pressed button 3" "\<not> pressed button 2"
    by (rule toggle_pressD)
  define s0 where "s0 = s\<lparr>yaw_trim := snd (scale_yaw button (yaw_trim s))\<rparr>"
  from ok have "alt_hold s0 \<longrightarrow> ei s0 \<noteq> None" by (simp add: s0_def)
  from throttle_stage_Next [OF up this, of "scale_throttle (- (axis ! 1))"]
  obtain s1 where st: "throttle_stage s0 i (scale_throttle (- (axis ! 1))) = Next s1"
    and s1: "alt_hold s1 = alt_hold s0" "last_alt_toggle_time s1 = last_alt_toggle_time s0"
    by blast
  define s2 where "s2 = set_attitude s1 (fst (scale_yaw button (yaw_trim s)))
                (scale_axis (axis ! 3)) (scale_axis (- (axis ! 4)))"
  have k: "last_alt_toggle_time s2 = last_alt_toggle_time s" "alt_hold s2 = alt_hold s"
    using s1 by (simp_all add: s2_def set_attitude_def s0_def)
  with t have t2: "now i - last_alt_toggle_time s2 \<le> 0.5" by simp
  from buttons_debounced [OF b t2] have bt: "buttons s2 i button = Next s2" .
  from loop_body_Next [OF js up st [unfolded s0_def] bt [unfolded s2_def]]
  obtain s' where s': "loop_body s i = Next s'" ..
  from loop_body_after_buttons [OF js st [unfolded s0_def], of s2] bt s' k
  have "alt_hold s' = alt_hold s" by (simp_all add: s2_def)
  with s' show ?thesis by simp
qed

lemma two_presses:
  assumes tp: "toggle_press i1" "toggle_press i2" and ok: "alt_hold s \<longrightarrow> ei s \<noteq> None"
    and t: "now i1 - last_alt_toggle_time s > 0.5"
  shows "now i2 - now i1 \<le> 0.5 \<Longrightarrow> hold_changes s [i1, i2] = [now i1]"
    and "now i2 - now i1 > 0.5 \<Longrightarrow> hold_changes s [i1, i2] = [now i1, now i2]"
proof -
  from press_fires [OF tp(1) ok t] obtain s1 where s1: "loop_body s i1 = Next s1"
    "alt_hold s1 = (\<not> alt_hold s)" "last_alt_toggle_time s1 = now i1" "ei s1 = Some 0"
    by blast
  then have ok1: "alt_hold s1 \<longrightarrow> ei s1 \<noteq> None" by simp
  {
    assume "now i2 - now i1 \<le> 0.5"
    with s1 have "now i2 - last_alt_toggle_time s1 \<le> 0.5" by simp
    from press_debounced [OF tp(2) ok1 this] obtain s2 where
      "loop_body s1 i2 = Next s2" "alt_hold s2 = alt_hold s1" by blast
    with s1 show "hold_changes s [i1, i2] = [now i1]" by simp
  }
  {
    assume "now i2 - now i1 > 0.5"
    with s1 have "now i2 - last_alt_toggle_time s1 > 0.5" by simp
    from press_fires [OF tp(2) ok1 this] obtain s2 where
      "loop_body s1 i2 = Next s2" "alt_hold s2 = (\<not> alt_hold s1)" by blast
    with s1 show "hold_changes s [i1, i2] = [now i1, now i2]" by simp
  }
qed

text \<open>
  Claim C10.  In every run, two iterations that change \<^verbatim>\<open>alt_hold\<close> have debounce
  clock readings more than 0.5 s apart, so of two iterations less than 0.5 s apart at most
  one changes it.  Two presses of the toggle 0.1 s apart, the first one past the debounce
  interval, change the state once; 0.6 s apart they change it twice.
\<close>

theorem alt_hold_toggle_debounced:
  "(j < k \<and> k < length (hold_changes s ins) \<longrightarrow>
      hold_changes s ins ! j + 0.5 < hold_changes s ins ! k) \<and>
   (toggle_press i1 \<and> toggle_press i2 \<and> (alt_hold s \<longrightarrow> ei s \<noteq> None) \<and>
    now i1 - last_alt_toggle_time s > 0.5 \<longrightarrow>
      (now i2 = now i1 + 0.1 \<longrightarrow> hold_changes s [i1, i2] = [now i1]) \<and>
      (now i2 = now i1 + 0.6 \<longrightarrow> hold_changes s [i1, i2] = [now i1, now i2]))"
proof (intro conjI impI)
  assume "j < k \<and> k < length (hold_changes s ins)"
  then show "hold_changes s ins ! j + 0.5 < hold_changes s ins ! k"
    using hold_changes_spaced [of j k s ins] by simp
next
  assume a: "toggle_press i1 \<and> toggle_press i2 \<and> (alt_hold s \<longrightarrow> ei s \<noteq> None) \<and>
    now i1 - last_alt_toggle_time s > 0.5" and t: "now i2 = now i1 + 0.1"
  from t have "now i2 - now i1 \<le> 0.5" by simp
  with a two_presses(1) [of i1 i2 s] show "hold_changes s [i1, i2] = [now i1]" by blast
next
  assume a: "toggle_press i1 \<and> toggle_press i2 \<and> (alt_hold s \<longrightarrow> ei s \<noteq> None) \<and>
    now i1 - last_alt_toggle_time s > 0.5" and t: "now i2 = now i1 + 0.6"
  from t have "now i2 - now i1 > 0.5" by simp
  with a two_presses(2) [of i1 i2 s] show "hold_changes s [i1, i2] = [now i1, now i2]" by blast
qed

theorem alt_hold_toggle_debounced_witness:
  "hold_changes (initial startup0) [sticks (only 7) 1000 10, sticks (only 7) 1000.1 10] = [1000] \<and>
   hold_changes (initial startup0) [sticks (only 7) 1000 10, sticks (only 7) 1000.6 10] = [1000, 1000.6] \<and>
   hold_changes (initial startup0) [sticks (only 7) 1000 10, sticks (only 7) 1000.6 10] ! 0 + 0.5
     < hold_changes (initial startup0) [sticks (only 7) 1000 10, sticks (only 7) 1000.6 10] ! 1"
proof -
  have 1: "toggle_press (sticks (only 7) 1000 10)" "toggle_press (sticks (only 7) 1000.1 10)"
    "toggle_press (sticks (only 7) 1000.6 10)" by (rule toggle_press_sticks)+
  have 2: "alt_hold (initial startup0) \<longrightarrow> ei (initial startup0) \<noteq> None"
    "now (sticks (only 7) 1000 10) - last_alt_toggle_time (initial startup0) > 0.5"
    "now (sticks (only 7) 1000.1 10) = now (sticks (only 7) 1000 10) + 0.1"
    "now (sticks (only 7) 1000.6 10) = now (sticks (only 7) 1000 10) + 0.6"
    "now (sticks (only 7) 1000 10) = 1000" "now (sticks (only 7) 1000.6 10) = 1000.6"
    by (simp_all add: initial_def sticks_def)
  from alt_hold_toggle_debounced [of 0 1 "initial startup0" "[sticks (only 7) 1000 10, sticks (only 7) 1000.6 10]"
      "sticks (only 7) 1000 10" "sticks (only 7) 1000.1 10"]
    alt_hold_toggle_debounced [of 0 1 "initial startup0" "[sticks (only 7) 1000 10, sticks (only 7) 1000.6 10]"
      "sticks (only 7) 1000 10" "sticks (only 7) 1000.6 10"] 1 2
  show ?thesis by simp
qed

section \<open>Loss of the joystick\<close>

lemma buttons_aux2:
  "aux2 (CMDS (state_of (buttons s i button))) = aux2 (CMDS s) \<or>
   aux2 (CMDS (state_of (buttons s i button))) = 1800"
  by (simp add: buttons_def)

lemma loop_body_latched:
  assumes "aux2 (CMDS s) = 1800"
  shows "aux2 (CMDS (state_of (loop_body s i))) = 1800"
proof (cases "joystick i")
  case None
  then show ?thesis by (simp add: loop_body_lost joystick_lost_def)
next
  case (Some ab)
  obtain axis button where ab: "ab = (axis, button)" by (cases ab)
  with Some have js: "joystick i = Some (axis, button)" by simp
  show ?thesis
  proof (cases "4 < length axis")
    case True
    from loop_body_state [OF js True, of s] obtain s1 where
      s1: "aux2 (CMDS s1) = aux2 (CMDS s)"
       "state_of (loop_body s i) = s1 \<or>
        CMDS (state_of (loop_body s i)) = CMDS (state_of (buttons s1 i button))"
      by blast
    with buttons_aux2 [of s1 i button] assms show ?thesis by auto
  next
    case False
    with js assms show ?thesis by (simp add: loop_body_short)
  qed
qed

lemma run_loop_latched:
  "aux2 (CMDS s) = 1800 \<Longrightarrow> aux2 (CMDS (state_of (run_loop s ins))) = 1800"
proof (induction ins arbitrary: s)
  case Nil
  then show ?case by simp
next
  case (Cons i rest)
  from loop_body_latched [OF Cons.prems, of i]
  have l: "aux2 (CMDS (state_of (loop_body s i))) = 1800" .
  show ?case
  proof (cases "loop_body s i")
    case (Next s')
    with l Cons.IH [of s'] show ?thesis by simp
  next
    case (Break s')
    with l show ?thesis by simp
  next
    case (Raise s')
    with l show ?thesis by simp
  qed
qed

lemma ui_loop_body_lost:
  "joystick i = None \<Longrightarrow> ui_loop_body u i = Next (u\<lparr>ui_CMDS := (ui_CMDS u)\<lparr>aux2 := 1800\<rparr>\<rparr>)"
  by (simp add: ui_loop_body_def)

lemma ui_channels_aux:
  "aux1 (ui_CMDS (state_of (ui_channels u axis button))) = aux1 (ui_CMDS u)"
  "aux2 (ui_CMDS (state_of (ui_channels u axis button))) = aux2 (ui_CMDS u)"
  by (simp_all add: ui_channels_def Let_def)

lemma ui_channels_Next:
  "4 < length axis \<Longrightarrow> \<exists>u1. ui_channels u axis button = Next u1"
  by (simp add: ui_channels_def Let_def)

lemma ui_send_rc_CMDS: "ui_CMDS (state_of (ui_send_rc u i)) = ui_CMDS u"
  by (simp add: ui_send_rc_def)

lemma ui_loop_body_sticks:
  "joystick i = Some (axis, button) \<Longrightarrow>
   ui_loop_body u i = then_do (ui_channels u axis button) (\<lambda>s1.
          then_do (ui_buttons s1 i button) (\<lambda>s2. ui_send_rc s2 i))"
  by (simp add: ui_loop_body_def)

lemma ui_loop_body_CMDS:
  assumes "joystick i = Some (axis, button)"
  shows "\<exists>u1. aux1 (ui_CMDS u1) = aux1 (ui_CMDS u) \<and> aux2 (ui_CMDS u1) = aux2 (ui_CMDS u) \<and>
    (state_of (ui_loop_body u i) = u1 \<or>
     ui_CMDS (state_of (ui_loop_body u i)) = ui_CMDS (state_of (ui_buttons u1 i button)))"
proof (cases "ui_channels u axis button")
  case (Next u1)
  with ui_channels_aux [of u axis button]
  have k: "aux1 (ui_CMDS u1) = aux1 (ui_CMDS u)" "aux2 (ui_CMDS u1) = aux2 (ui_CMDS u)" by simp_all
  have "ui_CMDS (state_of (ui_loop_body u i)) = ui_CMDS (state_of (ui_buttons u1 i button))"
    unfolding ui_loop_body_sticks [OF assms] Next
    by (cases "ui_buttons u1 i button") (simp_all add: ui_send_rc_CMDS)
  with k show ?thesis by blast
next
  case (Break u1)
  with ui_channels_aux [of u axis button] show ?thesis
    by (auto simp: ui_loop_body_sticks [OF assms])
next
  case (Raise u1)
  with ui_channels_aux [of u axis button] show ?thesis
    by (auto simp: ui_loop_body_sticks [OF assms])
qed

lemma ui_buttons_no_mode:
  "aux2 (ui_CMDS u) = 1800 \<Longrightarrow> \<not> (pressed button 3 \<and> \<not> pressed button 0 \<and> \<not> pressed button 1) \<Longrightarrow>
   aux2 (ui_CMDS (state_of (ui_buttons u i button))) = 1800"
  by (auto simp: ui_buttons_def)

lemma ui_buttons_mode:
  "aux2 (ui_CMDS u) = 1800 \<Longrightarrow> pressed button 3 \<Longrightarrow> \<not> pressed button 0 \<Longrightarrow> \<not> pressed button 1 \<Longrightarrow>
   aux2 (ui_CMDS (state_of (ui_buttons u i button))) = 300"
  by (simp add: ui_buttons_def)

lemma ui_channels_short:
  "\<not> 4 < length axis \<Longrightarrow> ui_channels u axis button = Raise (state_of (ui_channels u axis button))"
  by (simp add: ui_channels_def Let_def)

lemma ui_loop_body_no_mode:
  assumes a: "aux2 (ui_CMDS u) = 1800" and m: "\<not> mode_press i"
  shows "aux2 (ui_CMDS (state_of (ui_loop_body u i))) = 1800"
proof (cases "joystick i")
  case None
  then show ?thesis by (simp add: ui_loop_body_lost)
next
  case (Some ab)
  obtain axis button where ab: "ab = (axis, button)" by (cases ab)
  with Some have js: "joystick i = Some (axis, button)" by simp
  show ?thesis
  proof (cases "4 < length axis")
    case True
    with m js have nm: "\<not> (pressed button 3 \<and> \<not> pressed button 0 \<and> \<not> pressed button 1)"
      by (simp add: mode_press_def)
    from ui_loop_body_CMDS [OF js, of u] obtain u1 where
      u1: "aux2 (ui_CMDS u1) = aux2 (ui_CMDS u)"
       "state_of (ui_loop_body u i) = u1 \<or>
        ui_CMDS (state_of (ui_loop_body u i)) = ui_CMDS (state_of (ui_buttons u1 i button))"
      by blast
    from u1(1) a have "aux2 (ui_CMDS u1) = 1800" by simp
    from ui_buttons_no_mode [OF this nm, of i] u1 a show ?thesis by auto
  next
    case False
    define r where "r = state_of (ui_channels u axis button)"
    from ui_channels_short [OF False, of u button]
    have c: "ui_channels u axis button = Raise r" by (simp add: r_def)
    from ui_channels_aux(2) [of u axis button] a have "aux2 (ui_CMDS r) = 1800"
      by (simp add: r_def)
    then show ?thesis by (simp add: ui_loop_body_sticks [OF js] c)
  qed
qed

lemma ui_loop_body_mode:
  assumes a: "aux2 (ui_CMDS u) = 1800" and m: "mode_press i"
  shows "aux2 (ui_CMDS (state_of (ui_loop_body u i))) = 300"
proof -
  from m obtain axis button where js: "joystick i = Some (axis, button)" and len: "4 < length axis"
    and b: "pressed button 3" "\<not> pressed button 0" "\<not> pressed button 1"
    by (auto simp: mode_press_def split: option.splits)
  from ui_channels_Next [OF len, of u button] obtain u1 where
    c: "ui_channels u axis button = Next u1" by blast
  with ui_channels_aux(2) [of u axis button] a have a1: "aux2 (ui_CMDS u1) = 1800" by simp
  have "ui_CMDS (state_of (ui_loop_body u i)) = ui_CMDS (state_of (ui_buttons u1 i button))"
    unfolding ui_loop_body_sticks [OF js] c
    by (cases "ui_buttons u1 i button") (simp_all add: ui_send_rc_CMDS)
  with ui_buttons_mode [OF a1 b, of i] show ?thesis by simp
qed

lemma ui_run_loop_no_mode:
  "aux2 (ui_CMDS u) = 1800 \<Longrightarrow> \<forall>i \<in> set ins. \<not> mode_press i \<Longrightarrow>
   aux2 (ui_CMDS (state_of (ui_run_loop u ins))) = 1800"
proof (induction ins arbitrary: u)
  case Nil
  then show ?case by simp
next
  case (Cons i rest)
  from Cons.prems have "\<not> mode_press i" by simp
  from ui_loop_body_no_mode [OF Cons.prems(1) this]
  have l: "aux2 (ui_CMDS (state_of (ui_loop_body u i))) = 1800" .
  from Cons.prems have r: "\<forall>i \<in> set rest. \<not> mode_press i" by simp
  show ?case
  proof (cases "ui_loop_body u i")
    case (Next u')
    with l Cons.IH [of u', OF _ r] show ?thesis by simp
  next
    case (Break u')
    with l show ?thesis by simp
  next
    case (Raise u')
    with l show ?thesis by simp
  qed
qed

lemma ui_run_loop_append:
  "ui_run_loop u (xs @ ys) =
     (case ui_run_loop u xs of
        Next u' \<Rightarrow> ui_run_loop u' ys
      | Break u' \<Rightarrow> Break u'
      | Raise u' \<Rightarrow> Raise u')"
proof (induction xs arbitrary: u)
  case Nil
  then show ?case by simp
next
  case (Cons i rest)
  then show ?case by (cases "ui_loop_body u i") simp_all
qed

lemma mode_press_sticks: "mode_press (sticks (only 3) t a)"
  by (simp add: mode_press_def sticks_def pressed_only)

lemma no_mode_press_sticks: "\<not> mode_press (sticks no_buttons t a)"
  by (simp add: mode_press_def sticks_def pressed_no_buttons)

text \<open>
  Claim C1, amended.  If \<^verbatim>\<open>update()\<close> raises in three consecutive iterations, the loop
  is still running after each of them and \<^verbatim>\<open>aux2\<close> is 1800 after each.  In
  \<^verbatim>\<open>newcode.py\<close> it then stays 1800 for the rest of the run, whatever the inputs: the
  value is latched, nothing in the loop writes another one.  In \<^verbatim>\<open>UIjoy.py\<close> it
  stays 1800 through every further run of iterations none of which takes the mode branch
  (joystick back or not, any other button pressed or none), and the first iteration that
  takes the mode branch after such a run makes it 300.
\<close>

theorem joystick_lost_latches_failsafe:
  assumes "joystick i1 = None" "joystick i2 = None" "joystick i3 = None"
  shows "(\<exists>s1 s2 s3. run_loop s [i1] = Next s1 \<and> run_loop s [i1, i2] = Next s2 \<and>
            run_loop s [i1, i2, i3] = Next s3 \<and>
            aux2 (CMDS s1) = 1800 \<and> aux2 (CMDS s2) = 1800 \<and> aux2 (CMDS s3) = 1800 \<and>
            aux2 (CMDS (state_of (run_loop s3 rest))) = 1800) \<and>
         (\<exists>u1 u2 u3. ui_run_loop u [i1] = Next u1 \<and> ui_run_loop u [i1, i2] = Next u2 \<and>
            ui_run_loop u [i1, i2, i3] = Next u3 \<and>
            aux2 (ui_CMDS u1) = 1800 \<and> aux2 (ui_CMDS u2) = 1800 \<and> aux2 (ui_CMDS u3) = 1800 \<and>
            ((\<forall>i \<in> set rest. \<not> mode_press i) \<longrightarrow>
               aux2 (ui_CMDS (state_of (ui_run_loop u3 rest))) = 1800 \<and>
               (\<forall>u'. ui_run_loop u3 rest = Next u' \<and> mode_press i4 \<longrightarrow>
                  aux2 (ui_CMDS (state_of (ui_run_loop u3 (rest @ [i4])))) = 300)))"
proof
  define s1 where "s1 = joystick_lost s"
  have l: "loop_body s i1 = Next s1" "loop_body s1 i2 = Next s1" "loop_body s1 i3 = Next s1"
    using assms by (simp_all add: loop_body_lost s1_def joystick_lost_def)
  have a: "aux2 (CMDS s1) = 1800" by (simp add: s1_def joystick_lost_def)
  from l have "run_loop s [i1] = Next s1" "run_loop s [i1, i2] = Next s1"
    "run_loop s [i1, i2, i3] = Next s1" by simp_all
  with a run_loop_latched [OF a, of rest]
  show "\<exists>s1 s2 s3. run_loop s [i1] = Next s1 \<and> run_loop s [i1, i2] = Next s2 \<and>
            run_loop s [i1, i2, i3] = Next s3 \<and>
            aux2 (CMDS s1) = 1800 \<and> aux2 (CMDS s2) = 1800 \<and> aux2 (CMDS s3) = 1800 \<and>
            aux2 (CMDS (state_of (run_loop s3 rest))) = 1800" by blast
next
  define u1 where "u1 = u\<lparr>ui_CMDS := (ui_CMDS u)\<lparr>aux2 := 1800\<rparr>\<rparr>"
  have l: "ui_loop_body u i1 = Next u1" "ui_loop_body u1 i2 = Next u1" "ui_loop_body u1 i3 = Next u1"
    using assms by (simp_all add: ui_loop_body_lost u1_def)
  have a: "aux2 (ui_CMDS u1) = 1800" by (simp add: u1_def)
  from l have r: "ui_run_loop u [i1] = Next u1" "ui_run_loop u [i1, i2] = Next u1"
    "ui_run_loop u [i1, i2, i3] = Next u1" by simp_all
  have k: "aux2 (ui_CMDS (state_of (ui_run_loop u1 rest))) = 1800 \<and>
      (\<forall>u'. ui_run_loop u1 rest = Next u' \<and> mode_press i4 \<longrightarrow>
         aux2 (ui_CMDS (state_of (ui_run_loop u1 (rest @ [i4])))) = 300)"
    if nm: "\<forall>i \<in> set rest. \<not> mode_press i"
  proof (intro conjI allI impI)
    from ui_run_loop_no_mode [OF a nm]
    show st: "aux2 (ui_CMDS (state_of (ui_run_loop u1 rest))) = 1800" .
    fix u' assume h: "ui_run_loop u1 rest = Next u' \<and> mode_press i4"
    with st have "aux2 (ui_CMDS u') = 1800" by simp
    from ui_loop_body_mode [OF this, of i4] h
    have "aux2 (ui_CMDS (state_of (ui_loop_body u' i4))) = 300" by simp
    moreover have "state_of (ui_run_loop u1 (rest @ [i4])) = state_of (ui_loop_body u' i4)"
      using h by (cases "ui_loop_body u' i4") (simp_all add: ui_run_loop_append)
    ultimately show "aux2 (ui_CMDS (state_of (ui_run_loop u1 (rest @ [i4])))) = 300" by simp
  qed
  from r a k
  show "\<exists>u1 u2 u3. ui_run_loop u [i1] = Next u1 \<and> ui_run_loop u [i1, i2] = Next u2 \<and>
            ui_run_loop u [i1, i2, i3] = Next u3 \<and>
            aux2 (ui_CMDS u1) = 1800 \<and> aux2 (ui_CMDS u2) = 1800 \<and> aux2 (ui_CMDS u3) = 1800 \<and>
            ((\<forall>i \<in> set rest. \<not> mode_press i) \<longrightarrow>
               aux2 (ui_CMDS (state_of (ui_run_loop u3 rest))) = 1800 \<and>
               (\<forall>u'. ui_run_loop u3 rest = Next u' \<and> mode_press i4 \<longrightarrow>
                  aux2 (ui_CMDS (state_of (ui_run_loop u3 (rest @ [i4])))) = 300))" by blast
qed

text \<open>
  Claim C1, as stated, says that the failsafe channel goes back to its earlier value when
  the joystick returns and that a frame is sent in every iteration.  From the initial
  state, after three iterations without the joystick and one with it (no button
  pressed), \<^verbatim>\<open>aux2\<close> is still 1800 where it was 1000 before, and the three iterations
  without the joystick have sent no frame: the handler ends in \<^verbatim>\<open>continue\<close>.  The same
  holds in \<^verbatim>\<open>UIjoy.py\<close>.
\<close>

theorem failsafe_not_reverted_frames_skipped:
  "aux2 (CMDS (initial startup0)) = 1000 \<and>
   aux2 (CMDS (state_of (run_loop (initial startup0)
      [lost 1000.01, lost 1000.02, lost 1000.03, sticks no_buttons 1000.04 0]))) = 1800 \<and>
   frames (trace (state_of (run_loop (initial startup0)
      [lost 1000.01, lost 1000.02, lost 1000.03]))) = [] \<and>
   aux2 (ui_CMDS ui_initial) = 1000 \<and>
   aux2 (ui_CMDS (state_of (ui_run_loop ui_initial
      [lost 1000.01, lost 1000.02, lost 1000.03, sticks no_buttons 1000.04 0]))) = 1800 \<and>
   frames (ui_trace (state_of (ui_run_loop ui_initial
      [lost 1000.01, lost 1000.02, lost 1000.03]))) = []"
  by code_simp

theorem joystick_lost_latches_failsafe_witness:
  "joystick (lost 1000.01) = None \<and>
   \<not> mode_press (sticks no_buttons 1000.04 0) \<and> mode_press (sticks (only 3) 1000.05 0) \<and>
   aux2 (CMDS (state_of (run_loop (initial startup0)
      [lost 1000.01, lost 1000.02, lost 1000.03, sticks no_buttons 1000.04 0]))) = 1800 \<and>
   aux2 (ui_CMDS (state_of (ui_run_loop ui_initial
      [lost 1000.01, lost 1000.02, lost 1000.03, sticks no_buttons 1000.04 0]))) = 1800 \<and>
   aux2 (ui_CMDS (state_of (ui_run_loop ui_initial
      [lost 1000.01, lost 1000.02, lost 1000.03, sticks no_buttons 1000.04 0,
       sticks (only 3) 1000.05 0]))) = 300"
proof -
  have h: "joystick (lost 1000.01) = None" "joystick (lost 1000.02) = None"
    "joystick (lost 1000.03) = None" by (simp_all add: lost_def)
  have m: "\<forall>i \<in> set [sticks no_buttons 1000.04 0]. \<not> mode_press i"
    "\<not> mode_press (sticks no_buttons 1000.04 0)" "mode_press (sticks (only 3) 1000.05 0)"
    by (simp_all add: no_mode_press_sticks mode_press_sticks)
  have n: "\<exists>u'. ui_run_loop (ui_initial\<lparr>ui_CMDS := (ui_CMDS ui_initial)\<lparr>aux2 := 1800\<rparr>\<rparr>)
      [sticks no_buttons 1000.04 0] = Next u'"
    by (simp add: ui_loop_body_def sticks_def ui_channels_def ui_buttons_def ui_send_rc_def
        pressed_no_buttons Let_def)
  have e: "run_loop (initial startup0) [lost 1000.01, lost 1000.02, lost 1000.03] =
      Next (joystick_lost (initial startup0))"
    "ui_run_loop ui_initial [lost 1000.01, lost 1000.02, lost 1000.03] =
      Next (ui_initial\<lparr>ui_CMDS := (ui_CMDS ui_initial)\<lparr>aux2 := 1800\<rparr>\<rparr>)"
    by (simp_all add: loop_body_lost ui_loop_body_lost lost_def joystick_lost_def)
  have p: "run_loop (initial startup0)
      [lost 1000.01, lost 1000.02, lost 1000.03, sticks no_buttons 1000.04 0] =
      run_loop (joystick_lost (initial startup0)) [sticks no_buttons 1000.04 0]"
    "\<And>xs. ui_run_loop ui_initial (lost 1000.01 # lost 1000.02 # lost 1000.03 # xs) =
      ui_run_loop (ui_initial\<lparr>ui_CMDS := (ui_CMDS ui_initial)\<lparr>aux2 := 1800\<rparr>\<rparr>) xs"
    by (simp_all add: loop_body_lost ui_loop_body_lost lost_def joystick_lost_def)
  from joystick_lost_latches_failsafe [OF h, of "initial startup0" "[sticks no_buttons 1000.04 0]"
      ui_initial "sticks (only 3) 1000.05 0"] h(1) m n e
  show ?thesis unfolding p by auto
qed

section \<open>Leaving the controller\<close>

lemma frames_append: "frames (xs @ ys) = frames xs @ frames ys"
  by (induction xs rule: frames.induct) simp_all

lemma pin_level_append: "pin_level b (xs @ ys) = pin_level (pin_level b xs) ys"
  by (induction b xs rule: pin_level.induct) simp_all

lemma trace_initial: "trace (initial st) = []"
  by (simp add: initial_def)

lemma ui_trace_initial: "ui_trace ui_initial = []"
  by (simp add: ui_initial_def)

text \<open>
  Claim C2, amended.  On every path on which \<^verbatim>\<open>joy_controller\<close> ends (no connection,
  an error before the loop, the reboot \<^verbatim>\<open>break\<close>, an error in the loop) the trace of
  \<^verbatim>\<open>newcode.py\<close> ends with the closing of the link, the pin driven low and the GPIO
  released, so the pin is low whatever it was; the cleanup sends no frame.  In
  \<^verbatim>\<open>UIjoy.py\<close>, which has no GPIO, the trace ends with the closing of the link and the
  cleanup sends no frame either.
\<close>

theorem cleanup_on_every_exit:
  "(fst (joy_controller st ins) \<noteq> Running \<longrightarrow>
      trace (snd (joy_controller st ins)) =
        (if board_is_1 st \<or> setup_raises st then []
         else trace (state_of (run_loop (initial st) ins))) @
        [LinkClosed, GpioOutput False, GpioCleanup] \<and>
      frames (trace (snd (joy_controller st ins))) =
        (if board_is_1 st \<or> setup_raises st then []
         else frames (trace (state_of (run_loop (initial st) ins)))) \<and>
      \<not> pin_level b (trace (snd (joy_controller st ins)))) \<and>
   (fst (ui_joy_controller st ins) \<noteq> Running \<longrightarrow>
      ui_trace (snd (ui_joy_controller st ins)) =
        (if board_is_1 st \<or> setup_raises st then []
         else ui_trace (state_of (ui_run_loop ui_initial ins))) @ [LinkClosed] \<and>
      frames (ui_trace (snd (ui_joy_controller st ins))) =
        (if board_is_1 st \<or> setup_raises st then []
         else frames (ui_trace (state_of (ui_run_loop ui_initial ins)))))"
proof (intro conjI impI)
  assume ex: "fst (joy_controller st ins) \<noteq> Running"
  show t: "trace (snd (joy_controller st ins)) =
        (if board_is_1 st \<or> setup_raises st then []
         else trace (state_of (run_loop (initial st) ins))) @
        [LinkClosed, GpioOutput False, GpioCleanup]"
  proof (cases "board_is_1 st \<or> setup_raises st")
    case True
    then show ?thesis
      by (auto simp: joy_controller_def finally_clause_def with_exit_def trace_initial)
  next
    case False
    with ex show ?thesis
      by (cases "run_loop (initial st) ins")
        (simp_all add: joy_controller_def finally_clause_def with_exit_def)
  qed
  show "frames (trace (snd (joy_controller st ins))) =
        (if board_is_1 st \<or> setup_raises st then []
         else frames (trace (state_of (run_loop (initial st) ins))))"
    unfolding t by (simp add: frames_append)
  show "\<not> pin_level b (trace (snd (joy_controller st ins)))"
    unfolding t by (simp add: pin_level_append)
next
  assume ex: "fst (ui_joy_controller st ins) \<noteq> Running"
  show t: "ui_trace (snd (ui_joy_controller st ins)) =
        (if board_is_1 st \<or> setup_raises st then []
         else ui_trace (state_of (ui_run_loop ui_initial ins))) @ [LinkClosed]"
  proof (cases "board_is_1 st \<or> setup_raises st")
    case True
    then show ?thesis
      by (auto simp: ui_joy_controller_def ui_with_exit_def ui_trace_initial)
  next
    case False
    with ex show ?thesis
      by (cases "ui_run_loop ui_initial ins")
        (simp_all add: ui_joy_controller_def ui_with_exit_def)
  qed
  show "frames (ui_trace (snd (ui_joy_controller st ins))) =
        (if board_is_1 st \<or> setup_raises st then []
         else frames (ui_trace (state_of (ui_run_loop ui_initial ins))))"
    unfolding t by (simp add: frames_append)
qed

text \<open>
  Claim C2, as stated, has the cleanup send one last frame.  A run that ends by the
  reboot button sends no frame at all: the trace is the reboot request, the closing of the
  link and the two GPIO calls (in \<^verbatim>\<open>UIjoy.py\<close> the reboot request and the closing of
  the link).
\<close>

theorem no_final_frame_on_exit:
  "joy_controller startup0 [sticks (only 9) 1000.01 0] =
     (ReturnedNone, (initial startup0)\<lparr>
        CMDS := CMDS0\<lparr>throttle := 1600\<rparr>,
        trace := [Reboot, LinkClosed, GpioOutput False, GpioCleanup]\<rparr>) \<and>
   frames (trace (snd (joy_controller startup0 [sticks (only 9) 1000.01 0]))) = [] \<and>
   fst (ui_joy_controller startup0 [sticks (only 9) 1000.01 0]) = ReturnedNone \<and>
   ui_trace (snd (ui_joy_controller startup0 [sticks (only 9) 1000.01 0])) = [Reboot, LinkClosed]"
  by code_simp

theorem cleanup_on_every_exit_witness:
  "fst (joy_controller startup0 [sticks (only 9) 1000.01 0]) \<noteq> Running \<and>
   fst (ui_joy_controller startup0 [sticks (only 9) 1000.01 0]) \<noteq> Running \<and>
   trace (snd (joy_controller startup0 [sticks (only 9) 1000.01 0])) =
     [Reboot, LinkClosed, GpioOutput False, GpioCleanup] \<and>
   \<not> pin_level True (trace (snd (joy_controller startup0 [sticks (only 9) 1000.01 0]))) \<and>
   ui_trace (snd (ui_joy_controller startup0 [sticks (only 9) 1000.01 0])) = [Reboot, LinkClosed]"
proof -
  have h: "fst (joy_controller startup0 [sticks (only 9) 1000.01 0]) \<noteq> Running"
    "fst (ui_joy_controller startup0 [sticks (only 9) 1000.01 0]) \<noteq> Running"
    by code_simp+
  have e: "trace (state_of (run_loop (initial startup0) [sticks (only 9) 1000.01 0])) = [Reboot]"
    "ui_trace (state_of (ui_run_loop ui_initial [sticks (only 9) 1000.01 0])) = [Reboot]"
    "\<not> (board_is_1 startup0 \<or> setup_raises startup0)"
    by code_simp+
  from cleanup_on_every_exit [of startup0 "[sticks (only 9) 1000.01 0]" True] h e
  show ?thesis by simp
qed

section \<open>Order of the button chain\<close>








section \<open>Channel mapping and trims\<close>

lemma scale_yaw_twice:
  "\<bar>fst (scale_yaw button (snd (scale_yaw button t))) - fst (scale_yaw button t)\<bar> \<le> 10"
  by (auto simp: scale_yaw_def Let_def)

lemma scale_yaw_fst: "fst (scale_yaw button t) = 1500 + snd (scale_yaw button t)"
  by (simp add: scale_yaw_def Let_def)

lemma channel_map_eq:
  "4 < length axis \<Longrightarrow>
   channel_map axis button t =
     Some ((scale_throttle (- (axis ! 1)), scale_axis (axis ! 3), scale_axis (- (axis ! 4)),
            fst (scale_yaw button t)), snd (scale_yaw button t))"
  by (simp add: channel_map_def Let_def split: prod.splits)

lemma step_trim_twice:
  "\<bar>step_trim button (step_trim button t) - step_trim button t\<bar> \<le> 5"
  by (auto simp: step_trim_def)

lemma ui_channels_eq:
  "4 < length axis \<Longrightarrow>
   ui_channels u axis button =
     Next (u\<lparr>throttle_trim := step_trim button (throttle_trim u),
             ui_CMDS := (ui_CMDS u)\<lparr>throttle := 900 + step_trim button (throttle_trim u),
                roll := scale_axis (axis ! 3), pitch := scale_axis (- (axis ! 4)),
                yaw := scale_axis (axis ! 0)\<rparr>\<rparr>)"
  by (simp add: ui_channels_def Let_def)

lemma scale_yaw_snd:
  "snd (scale_yaw button t) =
     (if pressed button 5 then min 100 (t + 10)
      else if pressed button 4 then max (- 100) (t - 10) else 0)"
  by (simp add: scale_yaw_def Let_def)

text \<open>
  Claim C6, amended.  The channel mapping is a function of the snapshot and the trim that
  returns the channel values and the new trim, and it rewrites the trim: in
  \<^verbatim>\<open>newcode.py\<close> the yaw trim becomes \<open>min 100 (trim + 10)\<close> while button 5 is held,
  \<open>max (-100) (trim - 10)\<close> while button 4 is held and 0 otherwise; in \<^verbatim>\<open>UIjoy.py\<close>
  the throttle trim becomes \<open>min 1200 (trim + 5)\<close> while button 7 is held,
  \<open>max 0 (trim - 5)\<close> while button 6 is held and is kept otherwise.  Evaluated a second
  time on the same snapshot, from the trim the first evaluation left, the mapping gives
  the same throttle, roll and pitch (\<^verbatim>\<open>UIjoy.py\<close>: roll, pitch and yaw); the yaw is
  1500 plus the trim and moves by at most 10 (\<^verbatim>\<open>UIjoy.py\<close>: the throttle is 900 plus
  the trim and moves by at most 5); when neither trim button is held, the second result
  equals the first.
\<close>

theorem channel_map_threads_trim:
  assumes "4 < length axis"
  shows "(\<exists>thr rl pt y1 t1 y2 t2.
            channel_map axis button t = Some ((thr, rl, pt, y1), t1) \<and>
            channel_map axis button t1 = Some ((thr, rl, pt, y2), t2) \<and>
            thr = scale_throttle (- (axis ! 1)) \<and> rl = scale_axis (axis ! 3) \<and>
            pt = scale_axis (- (axis ! 4)) \<and> y1 = 1500 + t1 \<and> y2 = 1500 + t2 \<and>
            t1 = (if pressed button 5 then min 100 (t + 10)
                  else if pressed button 4 then max (- 100) (t - 10) else 0) \<and>
            t2 = (if pressed button 5 then min 100 (t1 + 10)
                  else if pressed button 4 then max (- 100) (t1 - 10) else 0) \<and>
            \<bar>y2 - y1\<bar> \<le> 10 \<and>
            (\<not> pressed button 5 \<and> \<not> pressed button 4 \<longrightarrow> t1 = 0 \<and> t2 = 0 \<and> y2 = y1)) \<and>
         (\<exists>u1 u2.
            ui_channels u axis button = Next u1 \<and> ui_channels u1 axis button = Next u2 \<and>
            roll (ui_CMDS u2) = roll (ui_CMDS u1) \<and> pitch (ui_CMDS u2) = pitch (ui_CMDS u1) \<and>
            yaw (ui_CMDS u2) = yaw (ui_CMDS u1) \<and>
            throttle (ui_CMDS u1) = 900 + throttle_trim u1 \<and>
            throttle (ui_CMDS u2) = 900 + throttle_trim u2 \<and>
            throttle_trim u1 =
              (if pressed button 7 then min 1200 (throttle_trim u + 5)
               else if pressed button 6 then max 0 (throttle_trim u - 5) else throttle_trim u) \<and>
            throttle_trim u2 =
              (if pressed button 7 then min 1200 (throttle_trim u1 + 5)
               else if pressed button 6 then max 0 (throttle_trim u1 - 5) else throttle_trim u1) \<and>
            \<bar>throttle (ui_CMDS u2) - throttle (ui_CMDS u1)\<bar> \<le> 5 \<and>
            (\<not> pressed button 7 \<and> \<not> pressed button 6 \<longrightarrow>
               throttle_trim u1 = throttle_trim u \<and> u2 = u1))"
proof
  define t1 where "t1 = snd (scale_yaw button t)"
  define t2 where "t2 = snd (scale_yaw button t1)"
  have 1: "channel_map axis button t =
      Some ((scale_throttle (- (axis ! 1)), scale_axis (axis ! 3), scale_axis (- (axis ! 4)),
             1500 + t1), t1)"
    "channel_map axis button t1 =
      Some ((scale_throttle (- (axis ! 1)), scale_axis (axis ! 3), scale_axis (- (axis ! 4)),
             1500 + t2), t2)"
    by (simp_all add: channel_map_eq [OF assms] scale_yaw_fst t1_def t2_def)
  have 2: "t1 = (if pressed button 5 then min 100 (t + 10)
                  else if pressed button 4 then max (- 100) (t - 10) else 0)"
    "t2 = (if pressed button 5 then min 100 (t1 + 10)
                  else if pressed button 4 then max (- 100) (t1 - 10) else 0)"
    unfolding t1_def t2_def by (rule scale_yaw_snd)+
  have 3: "\<bar>(1500 + t2) - (1500 + t1)\<bar> \<le> 10"
    using scale_yaw_twice [of button t] by (simp add: scale_yaw_fst t1_def t2_def)
  have 4: "t1 = 0 \<and> t2 = 0 \<and> 1500 + t2 = 1500 + t1"
    if "\<not> pressed button 5 \<and> \<not> pressed button 4"
    using that by (simp add: 2)
  from 1 2 3 4
  show "\<exists>thr rl pt y1 t1 y2 t2.
            channel_map axis button t = Some ((thr, rl, pt, y1), t1) \<and>
            channel_map axis button t1 = Some ((thr, rl, pt, y2), t2) \<and>
            thr = scale_throttle (- (axis ! 1)) \<and> rl = scale_axis (axis ! 3) \<and>
            pt = scale_axis (- (axis ! 4)) \<and> y1 = 1500 + t1 \<and> y2 = 1500 + t2 \<and>
            t1 = (if pressed button 5 then min 100 (t + 10)
                  else if pressed button 4 then max (- 100) (t - 10) else 0) \<and>
            t2 = (if pressed button 5 then min 100 (t1 + 10)
                  else if pressed button 4 then max (- 100) (t1 - 10) else 0) \<and>
            \<bar>y2 - y1\<bar> \<le> 10 \<and>
            (\<not> pressed button 5 \<and> \<not> pressed button 4 \<longrightarrow> t1 = 0 \<and> t2 = 0 \<and> y2 = y1)"
    by blast
next
  define u1 where "u1 = u\<lparr>throttle_trim := step_trim button (throttle_trim u),
             ui_CMDS := (ui_CMDS u)\<lparr>throttle := 900 + step_trim button (throttle_trim u),
                roll := scale_axis (axis ! 3), pitch := scale_axis (- (axis ! 4)),
                yaw := scale_axis (axis ! 0)\<rparr>\<rparr>"
  define u2 where "u2 = u1\<lparr>throttle_trim := step_trim button (throttle_trim u1),
             ui_CMDS := (ui_CMDS u1)\<lparr>throttle := 900 + step_trim button (throttle_trim u1),
                roll := scale_axis (axis ! 3), pitch := scale_axis (- (axis ! 4)),
                yaw := scale_axis (axis ! 0)\<rparr>\<rparr>"
  have 1: "ui_channels u axis button = Next u1" "ui_channels u1 axis button = Next u2"
    unfolding u1_def u2_def by (rule ui_channels_eq [OF assms])+
  have 2: "roll (ui_CMDS u2) = roll (ui_CMDS u1)" "pitch (ui_CMDS u2) = pitch (ui_CMDS u1)"
    "yaw (ui_CMDS u2) = yaw (ui_CMDS u1)" "throttle (ui_CMDS u1) = 900 + throttle_trim u1"
    "throttle (ui_CMDS u2) = 900 + throttle_trim u2"
    by (simp_all add: u1_def u2_def)
  have 3: "\<bar>throttle (ui_CMDS u2) - throttle (ui_CMDS u1)\<bar> \<le> 5"
    using step_trim_twice [of button "throttle_trim u"] by (simp add: u1_def u2_def)
  have 4: "throttle_trim u1 = throttle_trim u \<and> u2 = u1"
    if "\<not> pressed button 7 \<and> \<not> pressed button 6"
    using that by (simp add: u1_def u2_def step_trim_def)
  have 5: "throttle_trim u1 = step_trim button (throttle_trim u)"
    "throttle_trim u2 = step_trim button (throttle_trim u1)"
    by (simp_all add: u1_def u2_def)
  have 6: "throttle_trim u1 =
              (if pressed button 7 then min 1200 (throttle_trim u + 5)
               else if pressed button 6 then max 0 (throttle_trim u - 5) else throttle_trim u)"
    "throttle_trim u2 =
              (if pressed button 7 then min 1200 (throttle_trim u1 + 5)
               else if pressed button 6 then max 0 (throttle_trim u1 - 5) else throttle_trim u1)"
    unfolding 5 by (rule step_trim_def)+
  from 1 2 3 4 6 show "\<exists>u1 u2.
            ui_channels u axis button = Next u1 \<and> ui_channels u1 axis button = Next u2 \<and>
            roll (ui_CMDS u2) = roll (ui_CMDS u1) \<and> pitch (ui_CMDS u2) = pitch (ui_CMDS u1) \<and>
            yaw (ui_CMDS u2) = yaw (ui_CMDS u1) \<and>
            throttle (ui_CMDS u1) = 900 + throttle_trim u1 \<and>
            throttle (ui_CMDS u2) = 900 + throttle_trim u2 \<and>
            throttle_trim u1 =
              (if pressed button 7 then min 1200 (throttle_trim u + 5)
               else if pressed button 6 then max 0 (throttle_trim u - 5) else throttle_trim u) \<and>
            throttle_trim u2 =
              (if pressed button 7 then min 1200 (throttle_trim u1 + 5)
               else if pressed button 6 then max 0 (throttle_trim u1 - 5) else throttle_trim u1) \<and>
            \<bar>throttle (ui_CMDS u2) - throttle (ui_CMDS u1)\<bar> \<le> 5 \<and>
            (\<not> pressed button 7 \<and> \<not> pressed button 6 \<longrightarrow>
               throttle_trim u1 = throttle_trim u \<and> u2 = u1)" by blast
qed

text \<open>
  Claim C6, as stated, has the channel mapping leave the trim alone.  With button 5 held,
  \<^verbatim>\<open>scale_yaw\<close> moves the yaw trim from 0 to 10 and from 10 to 20, so two iterations on
  the same snapshot send different frames (yaw 1510, then 1520); with button 7 held the
  throttle trim of \<^verbatim>\<open>UIjoy.py\<close> does the same (throttle 905, then 910).
\<close>

theorem channel_map_changes_trim:
  "channel_map [0, 0, 0, 0, 0, 0] (only 5) 0 = Some ((1600, 1500, 1500, 1510), 10) \<and>
   channel_map [0, 0, 0, 0, 0, 0] (only 5) 10 = Some ((1600, 1500, 1500, 1520), 20) \<and>
   frames (trace (state_of (run_loop (initial startup0)
      [sticks (only 5) 1000.01 0, sticks (only 5) 1000.02 0]))) =
     [[1500, 1500, 1600, 1510, 1000, 1000], [1500, 1500, 1600, 1520, 1000, 1000]] \<and>
   frames (ui_trace (state_of (ui_run_loop ui_initial
      [sticks (only 7) 1000.01 0, sticks (only 7) 1000.02 0]))) =
     [[1500, 1500, 905, 1500, 1000, 1000], [1500, 1500, 910, 1500, 1000, 1000]]"
  by code_simp

theorem channel_map_threads_trim_witness:
  "4 < length [0, 0, 0, 0, 0, 0 :: real] \<and>
   pressed (only 5) 5 \<and> pressed (only 7) 7 \<and> \<not> pressed no_buttons 5 \<and> \<not> pressed no_buttons 4 \<and>
   channel_map [0, 0, 0, 0, 0, 0] (only 5) 85 = Some ((1600, 1500, 1500, 1595), 95) \<and>
   channel_map [0, 0, 0, 0, 0, 0] (only 5) 95 = Some ((1600, 1500, 1500, 1600), 100) \<and>
   channel_map [0, 0, 0, 0, 0, 0] (only 4) 0 = Some ((1600, 1500, 1500, 1490), - 10) \<and>
   channel_map [0, 0, 0, 0, 0, 0] no_buttons 30 = Some ((1600, 1500, 1500, 1500), 0) \<and>
   channel_map [0, 0, 0, 0, 0, 0] no_buttons 0 = Some ((1600, 1500, 1500, 1500), 0) \<and>
   (\<exists>u1 u2. ui_channels (ui_initial\<lparr>throttle_trim := 1190\<rparr>) [0, 0, 0, 0, 0, 0] (only 7) = Next u1 \<and>
      ui_channels u1 [0, 0, 0, 0, 0, 0] (only 7) = Next u2 \<and>
      throttle_trim u1 = 1195 \<and> throttle (ui_CMDS u1) = 2095 \<and>
      throttle_trim u2 = 1200 \<and> throttle (ui_CMDS u2) = 2100)"
proof -
  have h: "4 < length [0, 0, 0, 0, 0, 0 :: real]" by simp
  have v: "scale_throttle (- ([0, 0, 0, 0, 0, 0] ! 1)) = 1600"
    "scale_axis ([0, 0, 0, 0, 0, 0] ! 3) = 1500" "scale_axis (- ([0, 0, 0, 0, 0, 0] ! 4)) = 1500"
    by code_simp+
  have b: "throttle_trim (ui_initial\<lparr>throttle_trim := 1190\<rparr>) = 1190" by simp
  from channel_map_threads_trim [OF h, of "only 5" 85 "ui_initial\<lparr>throttle_trim := 1190\<rparr>"]
    channel_map_threads_trim [OF h, of "only 4" 0 ui_initial]
    channel_map_threads_trim [OF h, of "only 7" 0 "ui_initial\<lparr>throttle_trim := 1190\<rparr>"]
    channel_map_threads_trim [OF h, of no_buttons 30 ui_initial] h v b
  show ?thesis by (auto simp: pressed_no_buttons pressed_only)
qed

end
